theory Spec2Isabelle
  imports Main
begin

section \<open>Time and machine integers\<close>

text \<open>
  A Go \<^verbatim>\<open>time.Time\<close> is modelled as an integer number of nanoseconds since the Unix
  epoch, read with \<^verbatim>\<open>time.Now()\<close>; \<^verbatim>\<open>a.After(b)\<close> is \<open>b < a\<close> and \<^verbatim>\<open>a.Before(b)\<close>
  is \<open>a < b\<close>.  Every call of \<^verbatim>\<open>time.Now()\<close> in the source is an argument of the
  function that models the caller.

  A \<^verbatim>\<open>time.Duration\<close> is an \<^verbatim>\<open>int64\<close> count of nanoseconds.  The two places where the
  source computes a duration from a value it received,
  \<^verbatim>\<open>time.Duration(n) * time.Second\<close>, multiply in \<^verbatim>\<open>int64\<close> and therefore wrap around.
\<close>

type_synonym time = int

definition wrap64 :: "int \<Rightarrow> int" where
  "wrap64 x = (x + 2 ^ 63) mod 2 ^ 64 - 2 ^ 63"

definition Second :: int where
  "Second = 1000000000"

definition Minute :: int where
  "Minute = 60 * Second"

definition Hour :: int where
  "Hour = 60 * Minute"

definition seconds :: "int \<Rightarrow> int" where
  "seconds n = wrap64 (n * Second)"

section \<open>Rate limiter\<close>

record RateLimiter =
  minuteCount :: int
  minuteResetTime :: time
  dayCount :: int
  dayResetTime :: time
  minuteLimit :: int
  dayLimit :: int

text \<open>
  \<^verbatim>\<open>RateLimitError.ResetAt\<close> is the reset instant formatted as RFC 3339 text; the model
  keeps the instant itself.
\<close>

record RateLimitError =
  Limit :: int
  Remaining :: int
  ResetAt :: time
  Type :: string

record RateLimitStats =
  MinuteLimit :: int
  MinuteUsed :: int
  MinuteRemaining :: int
  MinuteResetAt :: time
  DayLimit :: int
  DayUsed :: int
  DayRemaining :: int
  DayResetAt :: time

definition NewRateLimiterWithLimits :: "time \<Rightarrow> int \<Rightarrow> int \<Rightarrow> RateLimiter" where
  "NewRateLimiterWithLimits now mLimit dLimit =
     \<lparr>minuteCount = 0, minuteResetTime = now + Minute,
      dayCount = 0, dayResetTime = now + 24 * Hour,
      minuteLimit = mLimit, dayLimit = dLimit\<rparr>"

definition NewRateLimiter :: "time \<Rightarrow> RateLimiter" where
  "NewRateLimiter now =
     \<lparr>minuteCount = 0, minuteResetTime = now + Minute,
      dayCount = 0, dayResetTime = now + 24 * Hour,
      minuteLimit = 120, dayLimit = 1000\<rparr>"

text \<open>
  \<^verbatim>\<open>Allow\<close> returns the error (\<open>None\<close> for Go's \<^verbatim>\<open>nil\<close>) and the limiter as the call
  leaves it.  The two increments run only below the limits, so they cannot leave the
  range of Go's \<^verbatim>\<open>int\<close>.
\<close>

definition Allow :: "time \<Rightarrow> RateLimiter \<Rightarrow> RateLimitError option \<times> RateLimiter" where
  "Allow now r =
     (let r1 = (if minuteResetTime r < now
                then r\<lparr>minuteCount := 0, minuteResetTime := now + Minute\<rparr> else r);
          r2 = (if dayResetTime r1 < now
                then r1\<lparr>dayCount := 0, dayResetTime := now + 24 * Hour\<rparr> else r1)
      in if minuteLimit r2 \<le> minuteCount r2
         then (Some \<lparr>Limit = minuteLimit r2, Remaining = 0,
                     ResetAt = minuteResetTime r2, Type = ''minute''\<rparr>, r2)
         else if dayLimit r2 \<le> dayCount r2
         then (Some \<lparr>Limit = dayLimit r2, Remaining = 0,
                     ResetAt = dayResetTime r2, Type = ''day''\<rparr>, r2)
         else (None, r2\<lparr>minuteCount := minuteCount r2 + 1, dayCount := dayCount r2 + 1\<rparr>))"

text \<open>
  \<^verbatim>\<open>Stats\<close> writes local variables only; the limiter it returns beside the snapshot is
  the receiver as the call leaves it.  In a limiter made by a constructor and changed by
  these operations a count is 0, or lies between 0 and its limit, or is the limit, so the
  two subtractions stay in the range of Go's \<^verbatim>\<open>int\<close>.
\<close>

definition Stats :: "time \<Rightarrow> RateLimiter \<Rightarrow> RateLimitStats \<times> RateLimiter" where
  "Stats now r =
     (let mc = (if minuteResetTime r < now then 0 else minuteCount r);
          dc = (if dayResetTime r < now then 0 else dayCount r)
      in (\<lparr>MinuteLimit = minuteLimit r, MinuteUsed = mc,
           MinuteRemaining = minuteLimit r - mc, MinuteResetAt = minuteResetTime r,
           DayLimit = dayLimit r, DayUsed = dc,
           DayRemaining = dayLimit r - dc, DayResetAt = dayResetTime r\<rparr>, r))"

definition UpdateFromResponse :: "time \<Rightarrow> int \<Rightarrow> RateLimiter \<Rightarrow> RateLimiter" where
  "UpdateFromResponse now retryAfterSeconds r =
     (if retryAfterSeconds \<le> 0 then r
      else r\<lparr>minuteCount := minuteLimit r,
             minuteResetTime := now + seconds retryAfterSeconds\<rparr>)"

text \<open>Consecutive calls of \<^verbatim>\<open>Allow\<close>, one per clock reading, with their results in order.\<close>

fun Allows :: "time list \<Rightarrow> RateLimiter \<Rightarrow> RateLimitError option list \<times> RateLimiter" where
  "Allows [] r = ([], r)"
| "Allows (t # ts) r =
     (case Allow t r of (e, r') \<Rightarrow> (case Allows ts r' of (es, r'') \<Rightarrow> (e # es, r'')))"

fun StatsCalls :: "time list \<Rightarrow> RateLimiter \<Rightarrow> RateLimiter" where
  "StatsCalls [] r = r"
| "StatsCalls (t # ts) r = StatsCalls ts (snd (Stats t r))"

section \<open>Errors\<close>

record APIError =
  StatusCode :: int
  Message :: string
  Details :: string
  RequestID :: string

record AuthError =
  Err :: string
  Description :: string

text \<open>
  An error value made by a library (\<^verbatim>\<open>net/http\<close>, \<^verbatim>\<open>io\<close>, \<^verbatim>\<open>encoding/json\<close>,
  \<^verbatim>\<open>context\<close>): its text and what its \<^verbatim>\<open>Timeout()\<close> and \<^verbatim>\<open>Temporary()\<close> methods answer.
\<close>

record lib_error =
  errText :: string
  errTimeout :: bool
  errTemporary :: bool

datatype sentinel =
    ErrUnauthorized | ErrForbidden | ErrNotFound
  | ErrRateLimitExceeded | ErrInvalidRequest | ErrServerError

text \<open>
  \<open>EWrap msg e\<close> is \<^verbatim>\<open>fmt.Errorf(msg + ": %w", e)\<close> and \<open>ESuffix e msg\<close> is
  \<^verbatim>\<open>fmt.Errorf("%w: " + msg, e)\<close>.
\<close>

datatype error =
    ESentinel sentinel
  | ERateLimit RateLimitError
  | EAPI APIError
  | EAuth AuthError
  | ELib lib_error
  | EWrap string error
  | ESuffix error string

definition APIError_Unwrap :: "APIError \<Rightarrow> sentinel option" where
  "APIError_Unwrap e =
     (if StatusCode e = 401 then Some ErrUnauthorized
      else if StatusCode e = 403 then Some ErrForbidden
      else if StatusCode e = 404 then Some ErrNotFound
      else if StatusCode e = 429 then Some ErrRateLimitExceeded
      else if StatusCode e = 400 then Some ErrInvalidRequest
      else if 500 \<le> StatusCode e then Some ErrServerError
      else None)"

section \<open>Retry policy\<close>

text \<open>
  Modelled from the spec: \<^verbatim>\<open>shouldRetry\<close>, whose source file is not among the sources.
  ``True when \<^verbatim>\<open>statusCode\<close> is one of 429, 500, 502, 503, 504 or the transport error
  signals a timeout/temporary condition; false for all other 4xx codes and non-transient
  transport errors.''  An error made with \<^verbatim>\<open>%w\<close> signals what the error it wraps signals.
\<close>

fun signalsTransient :: "error \<Rightarrow> bool" where
  "signalsTransient (ELib e) = (errTimeout e \<or> errTemporary e)"
| "signalsTransient (EWrap msg e) = signalsTransient e"
| "signalsTransient (ERateLimit e) = False"
| "signalsTransient (EAPI e) = False"
| "signalsTransient (EAuth e) = False"
| "signalsTransient (ESentinel e) = False"
| "signalsTransient (ESuffix e msg) = signalsTransient e"

definition shouldRetry :: "error option \<Rightarrow> int \<Rightarrow> bool" where
  "shouldRetry err statusCode =
     (statusCode \<in> {429, 500, 502, 503, 504}
      \<or> (case err of None \<Rightarrow> False | Some e \<Rightarrow> signalsTransient e))"

text \<open>
  Of \<^verbatim>\<open>RetryConfig\<close> the request loop reads \<^verbatim>\<open>MaxRetries\<close>; the other fields feed
  \<^verbatim>\<open>calculateBackoff\<close>, whose value goes to \<^verbatim>\<open>sleep\<close> and nowhere else.
\<close>

record RetryConfig =
  MaxRetries :: int

section \<open>What a run observes\<close>

text \<open>
  The functions below return, beside their results, the calls they made that the
  properties speak of, in order: a call of \<^verbatim>\<open>Allow\<close>, a request to the token endpoint,
  a data request (with the bearer token it carried), a backoff sleep (with the argument
  of \<^verbatim>\<open>calculateBackoff\<close>), the start of an attempt (with its index in the loop), and
  a call of \<^verbatim>\<open>invalidate\<close>.
\<close>

datatype event =
    AllowCall
  | TokenExchange
  | Send string
  | Sleep int
  | Attempt int
  | Invalidate

section \<open>Token manager\<close>

text \<open>The two fields of \<^verbatim>\<open>tokenManager\<close> that change; the others are configuration.\<close>

record tokenManager =
  accessToken :: string
  tokenExpiry :: time

record tokenResponse =
  AccessToken :: string
  TokenType :: string
  ExpiresIn :: int

definition tokenExpiryBuffer :: int where
  "tokenExpiryBuffer = 60 * Second"

text \<open>\<^verbatim>\<open>time.Time{}\<close>: midnight of 1 January of year 1, UTC.\<close>

definition zeroTime :: time where
  "zeroTime = - 62135596800 * Second"

definition newTokenManager :: tokenManager where
  "newTokenManager = \<lparr>accessToken = [], tokenExpiry = zeroTime\<rparr>"

text \<open>
  The response of the token endpoint as \<^verbatim>\<open>refreshToken\<close> reads it: the status code, what
  \<^verbatim>\<open>io.ReadAll\<close> returns for the body, and what \<^verbatim>\<open>json.Unmarshal\<close> makes of the body as an
  \<^verbatim>\<open>AuthError\<close> (\<open>None\<close> when it returns an error) and as a \<^verbatim>\<open>tokenResponse\<close>.
\<close>

record token_http_response =
  tokStatusCode :: int
  tokReadAll :: "lib_error + string"
  tokAuthJSON :: "AuthError option"
  tokTokenJSON :: "lib_error + tokenResponse"

text \<open>
  What one call of \<^verbatim>\<open>getToken\<close> meets: the three clock readings (in \<^verbatim>\<open>getToken\<close>, in
  the re-validation of \<^verbatim>\<open>refreshToken\<close>, and when the expiry is computed), the result of
  \<^verbatim>\<open>http.NewRequestWithContext\<close>, and the result of \<^verbatim>\<open>tm.httpClient.Do\<close>.
\<close>

record token_env =
  nowCheck :: time
  nowRecheck :: time
  tokNewRequest :: "lib_error option"
  tokDo :: "lib_error + token_http_response"
  nowStore :: time

definition refreshToken ::
  "token_env \<Rightarrow> tokenManager \<Rightarrow> (error + string) \<times> tokenManager \<times> event list" where
  "refreshToken E tm =
     (if accessToken tm \<noteq> [] \<and> nowRecheck E < tokenExpiry tm - tokenExpiryBuffer
      then (Inr (accessToken tm), tm, [])
      else case tokNewRequest E of
        Some e \<Rightarrow> (Inl (EWrap ''digikey: failed to create token request'' (ELib e)), tm, [])
      | None \<Rightarrow>
         (case tokDo E of
            Inl e \<Rightarrow> (Inl (EWrap ''digikey: token request failed'' (ELib e)), tm, [TokenExchange])
          | Inr resp \<Rightarrow>
             (case tokReadAll resp of
                Inl e \<Rightarrow> (Inl (EWrap ''digikey: failed to read token response'' (ELib e)),
                           tm, [TokenExchange])
              | Inr body \<Rightarrow>
                 if tokStatusCode resp \<noteq> 200
                 then (case tokAuthJSON resp of
                         Some authErr \<Rightarrow>
                           if Err authErr \<noteq> []
                           then (Inl (EAuth authErr), tm, [TokenExchange])
                           else (Inl (EAPI \<lparr>StatusCode = tokStatusCode resp,
                                            Message = ''token request failed'',
                                            Details = body, RequestID = []\<rparr>),
                                 tm, [TokenExchange])
                       | None \<Rightarrow>
                           (Inl (EAPI \<lparr>StatusCode = tokStatusCode resp,
                                       Message = ''token request failed'',
                                       Details = body, RequestID = []\<rparr>),
                            tm, [TokenExchange]))
                 else (case tokTokenJSON resp of
                         Inl e \<Rightarrow> (Inl (EWrap ''digikey: failed to parse token response'' (ELib e)),
                                    tm, [TokenExchange])
                       | Inr tokenResp \<Rightarrow>
                           (Inr (AccessToken tokenResp),
                            tm\<lparr>accessToken := AccessToken tokenResp,
                               tokenExpiry := nowStore E + seconds (ExpiresIn tokenResp)\<rparr>,
                            [TokenExchange])))))"

text \<open>
  \<^verbatim>\<open>getToken\<close> for a caller that runs alone: the manager it hands to \<^verbatim>\<open>refreshToken\<close> is
  the one it read.
\<close>

definition getToken ::
  "token_env \<Rightarrow> tokenManager \<Rightarrow> (error + string) \<times> tokenManager \<times> event list" where
  "getToken E tm =
     (if accessToken tm \<noteq> [] \<and> nowCheck E < tokenExpiry tm - tokenExpiryBuffer
      then (Inr (accessToken tm), tm, [])
      else refreshToken E tm)"

definition invalidate :: "tokenManager \<Rightarrow> tokenManager" where
  "invalidate tm = tm\<lparr>accessToken := [], tokenExpiry := zeroTime\<rparr>"

section \<open>Response cache\<close>

text \<open>
  Modelled from the spec: \<^verbatim>\<open>MemoryCache\<close>, whose source file is not among the sources.
  Each key holds a value and the instant it expires.  ``\<^verbatim>\<open>Get\<close> treats an entry whose
  \<^verbatim>\<open>expiresAt\<close> is at or before now as a miss and removes it.''
\<close>

type_synonym MemoryCache = "string \<rightharpoonup> (string \<times> time)"

definition cacheGet :: "time \<Rightarrow> string \<Rightarrow> MemoryCache \<Rightarrow> string option \<times> MemoryCache" where
  "cacheGet now key m =
     (case m key of
        None \<Rightarrow> (None, m)
      | Some (v, expiresAt) \<Rightarrow>
          if expiresAt \<le> now then (None, m(key := None)) else (Some v, m))"

definition cacheSet :: "time \<Rightarrow> string \<Rightarrow> string \<Rightarrow> int \<Rightarrow> MemoryCache \<Rightarrow> MemoryCache" where
  "cacheSet now key v ttl m = m(key \<mapsto> (v, now + ttl))"

record CacheConfig =
  Enabled :: bool
  SearchTTL :: int
  DetailsTTL :: int

section \<open>Client\<close>

record Locale =
  Site :: string
  Language :: string
  Currency :: string

text \<open>The fields of \<^verbatim>\<open>Client\<close>; \<open>cache = None\<close> is the \<^verbatim>\<open>nil\<close> interface value.\<close>

record client =
  baseURL :: string
  clientID :: string
  tokenManager :: tokenManager
  rateLimiter :: RateLimiter
  retryConfig :: RetryConfig
  cache :: "MemoryCache option"
  cacheConfig :: CacheConfig
  "locale" :: Locale

text \<open>
  The arguments of \<^verbatim>\<open>do\<close>: method and path, and whether \<^verbatim>\<open>body\<close> and \<^verbatim>\<open>result\<close> are
  other than \<^verbatim>\<open>nil\<close>.
\<close>

record request =
  reqMethod :: string
  reqPath :: string
  reqHasBody :: bool
  reqHasResult :: bool

text \<open>
  The response of the API as \<^verbatim>\<open>doOnce\<close> reads it: the status code and its
  \<^verbatim>\<open>http.StatusText\<close>, what \<^verbatim>\<open>parseRetryAfter\<close> returns for the \<^verbatim>\<open>Retry-After\<close> header
  (0 when the header is absent or not an integer), the \<^verbatim>\<open>X-Request-Id\<close> header, what
  \<^verbatim>\<open>io.ReadAll\<close> returns for the body, and what \<^verbatim>\<open>json.Unmarshal\<close> makes of the body as an
  error message with details (\<open>None\<close> when it returns an error) and as the result.
\<close>

record 'v http_response =
  respStatusCode :: int
  respStatusText :: string
  respRetryAfter :: int
  respRequestId :: string
  respReadAll :: "lib_error + string"
  respErrorJSON :: "(string \<times> string) option"
  respResultJSON :: "lib_error + 'v"

text \<open>
  What one pass of the request loop meets: the result of the backoff \<^verbatim>\<open>sleep\<close> (read
  when the attempt is not the first), the clock reading of \<^verbatim>\<open>Allow\<close>, what \<^verbatim>\<open>getToken\<close>
  meets, the errors of \<^verbatim>\<open>json.Marshal\<close> (read when there is a body) and of
  \<^verbatim>\<open>http.NewRequestWithContext\<close>, the result of \<^verbatim>\<open>c.httpClient.Do\<close>, and the clock
  reading of \<^verbatim>\<open>UpdateFromResponse\<close>.
\<close>

record 'v attempt_env =
  sleepResult :: "lib_error option"
  allowNow :: time
  tokenEnv :: token_env
  marshalBody :: "lib_error option"
  newRequest :: "lib_error option"
  doResult :: "lib_error + 'v http_response"
  updateNow :: time

definition handleErrorResponse :: "'v http_response \<Rightarrow> string \<Rightarrow> error" where
  "handleErrorResponse resp body =
     (case respErrorJSON resp of
        Some (message, details) \<Rightarrow>
          EAPI \<lparr>StatusCode = respStatusCode resp, Message = message,
                Details = details, RequestID = respRequestId resp\<rparr>
      | None \<Rightarrow>
          EAPI \<lparr>StatusCode = respStatusCode resp, Message = respStatusText resp,
                Details = body, RequestID = respRequestId resp\<rparr>)"

text \<open>
  \<^verbatim>\<open>doOnce\<close> returns the status code, the retry flag, the error (\<open>None\<close> for \<^verbatim>\<open>nil\<close>)
  and the value written through \<^verbatim>\<open>result\<close> (\<open>None\<close> when nothing was written); then
  the client as the call leaves it, and the calls it made.
\<close>

definition doOnce ::
  "request \<Rightarrow> 'v attempt_env \<Rightarrow> client
     \<Rightarrow> (int \<times> bool \<times> error option \<times> 'v option) \<times> client \<times> event list" where
  "doOnce rq E c =
     (case Allow (allowNow E) (rateLimiter c) of
        (Some e, r') \<Rightarrow>
          ((0, False, Some (ERateLimit e), None), c\<lparr>rateLimiter := r'\<rparr>, [AllowCall])
      | (None, r') \<Rightarrow>
         (case getToken (tokenEnv E) (tokenManager c) of
            (Inl e, tm', evs) \<Rightarrow>
              ((0, shouldRetry (Some e) 0, Some e, None),
               c\<lparr>rateLimiter := r', tokenManager := tm'\<rparr>, AllowCall # evs)
          | (Inr token, tm', evs) \<Rightarrow>
             (case (if reqHasBody rq then marshalBody E else None) of
                Some e \<Rightarrow>
                  ((0, False, Some (EWrap ''digikey: failed to marshal request body'' (ELib e)), None),
                   c\<lparr>rateLimiter := r', tokenManager := tm'\<rparr>, AllowCall # evs)
              | None \<Rightarrow>
                 (case newRequest E of
                    Some e \<Rightarrow>
                      ((0, False, Some (EWrap ''digikey: failed to create request'' (ELib e)), None),
                       c\<lparr>rateLimiter := r', tokenManager := tm'\<rparr>, AllowCall # evs)
                  | None \<Rightarrow>
                     (case doResult E of
                        Inl e \<Rightarrow>
                          ((0, shouldRetry (Some (ELib e)) 0,
                            Some (EWrap ''digikey: request failed'' (ELib e)), None),
                           c\<lparr>rateLimiter := r', tokenManager := tm'\<rparr>,
                           AllowCall # evs @ [Send token])
                      | Inr resp \<Rightarrow>
                         (case respReadAll resp of
                            Inl e \<Rightarrow>
                              ((respStatusCode resp, False,
                                Some (EWrap ''digikey: failed to read response'' (ELib e)), None),
                               c\<lparr>rateLimiter := r', tokenManager := tm'\<rparr>,
                               AllowCall # evs @ [Send token])
                          | Inr respBody \<Rightarrow>
                             if respStatusCode resp = 429
                             then ((respStatusCode resp, True,
                                    Some (handleErrorResponse resp respBody), None),
                                   c\<lparr>rateLimiter :=
                                        UpdateFromResponse (updateNow E) (respRetryAfter resp) r',
                                      tokenManager := tm'\<rparr>,
                                   AllowCall # evs @ [Send token])
                             else if respStatusCode resp = 401
                             then ((respStatusCode resp, False,
                                    Some (EAPI \<lparr>StatusCode = respStatusCode resp,
                                                Message = ''unauthorized'',
                                                Details = respBody,
                                                RequestID = respRequestId resp\<rparr>), None),
                                   c\<lparr>rateLimiter := r', tokenManager := tm'\<rparr>,
                                   AllowCall # evs @ [Send token])
                             else if respStatusCode resp < 200 \<or> 300 \<le> respStatusCode resp
                             then ((respStatusCode resp, shouldRetry None (respStatusCode resp),
                                    Some (handleErrorResponse resp respBody), None),
                                   c\<lparr>rateLimiter := r', tokenManager := tm'\<rparr>,
                                   AllowCall # evs @ [Send token])
                             else if reqHasResult rq \<and> respBody \<noteq> []
                             then (case respResultJSON resp of
                                     Inl e \<Rightarrow>
                                       ((respStatusCode resp, False,
                                         Some (EWrap ''digikey: failed to parse response'' (ELib e)),
                                         None),
                                        c\<lparr>rateLimiter := r', tokenManager := tm'\<rparr>,
                                        AllowCall # evs @ [Send token])
                                   | Inr v \<Rightarrow>
                                       ((respStatusCode resp, False, None, Some v),
                                        c\<lparr>rateLimiter := r', tokenManager := tm'\<rparr>,
                                        AllowCall # evs @ [Send token]))
                             else ((respStatusCode resp, False, None, None),
                                   c\<lparr>rateLimiter := r', tokenManager := tm'\<rparr>,
                                   AllowCall # evs @ [Send token])))))))"

text \<open>
  The loop of \<^verbatim>\<open>doWithRetry\<close>, from the attempt index and \<^verbatim>\<open>lastErr\<close> given.  The run
  carries the client, the number of passes begun so far (the \<open>k\<close>-th pass meets
  \<open>env k\<close>) and the calls made so far; \<open>passLog\<close> adds those of one pass: the backoff
  sleep when the attempt is not the first, the attempt, and what \<^verbatim>\<open>doOnce\<close> did.
  \<^verbatim>\<open>maxAttempts\<close> is computed once per call of \<^verbatim>\<open>doWithRetry\<close>, in Go's \<^verbatim>\<open>int\<close> of 64
  bits, where \<^verbatim>\<open>MaxRetries + 1\<close> wraps at the largest value; the call after a 401
  computes it again.  \<^verbatim>\<open>attempt + 1\<close> and \<^verbatim>\<open>maxAttempts - 1\<close> are computed only where
  \<open>0 \<le> attempt < maxAttempts\<close>, so they do not wrap.
\<close>

definition passLog :: "event list \<Rightarrow> int \<Rightarrow> event list \<Rightarrow> event list" where
  "passLog log attempt evs =
     log @ (if 0 < attempt then [Sleep (attempt - 1)] else []) @ Attempt attempt # evs"

function doWithRetry_loop ::
  "request \<Rightarrow> (nat \<Rightarrow> 'v attempt_env) \<Rightarrow> bool \<Rightarrow> int \<Rightarrow> int \<Rightarrow> error option
     \<Rightarrow> client \<times> nat \<times> event list
     \<Rightarrow> (error option \<times> 'v option) \<times> client \<times> nat \<times> event list" where
  "doWithRetry_loop rq env isRetryAfter401 maxAttempts attempt lastErr (c, k, log) =
     (if attempt < maxAttempts then
        (case (if 0 < attempt then sleepResult (env k) else None) of
           Some e \<Rightarrow> ((Some (ELib e), None), c, Suc k, log @ [Sleep (attempt - 1)])
         | None \<Rightarrow>
            (case doOnce rq (env k) c of
               ((statusCode, shouldRetryRequest, err, v), c', evs) \<Rightarrow>
                 (case err of
                    None \<Rightarrow>
                      ((None, v), c', Suc k,
                       passLog log attempt evs)
                  | Some e \<Rightarrow>
                      if statusCode = 401 \<and> \<not> isRetryAfter401
                      then doWithRetry_loop rq env True
                             (wrap64 (MaxRetries (retryConfig c') + 1)) 0 None
                             (c'\<lparr>tokenManager := invalidate (tokenManager c')\<rparr>, Suc k,
                              passLog log attempt evs @ [Invalidate])
                      else if \<not> shouldRetryRequest
                      then ((Some e, None), c', Suc k,
                            passLog log attempt evs)
                      else if maxAttempts - 1 \<le> attempt
                      then ((Some e, None), c', Suc k,
                            passLog log attempt evs)
                      else doWithRetry_loop rq env isRetryAfter401 maxAttempts (attempt + 1) (Some e)
                             (c', Suc k,
                              passLog log attempt evs))))
      else ((lastErr, None), c, k, log))"
  by pat_completeness auto
termination
  by (relation "measures [\<lambda>(rq, env, isRetryAfter401, maxAttempts, attempt, lastErr, s).
                            if isRetryAfter401 then 0 else 1,
                          \<lambda>(rq, env, isRetryAfter401, maxAttempts, attempt, lastErr, s).
                            nat (maxAttempts - attempt)]") auto

declare doWithRetry_loop.simps [simp del]

definition doWithRetry ::
  "request \<Rightarrow> (nat \<Rightarrow> 'v attempt_env) \<Rightarrow> bool \<Rightarrow> client \<times> nat \<times> event list
     \<Rightarrow> (error option \<times> 'v option) \<times> client \<times> nat \<times> event list" where
  "doWithRetry rq env isRetryAfter401 s =
     doWithRetry_loop rq env isRetryAfter401
       (wrap64 (MaxRetries (retryConfig (fst s)) + 1)) 0 None s"

text \<open>\<^verbatim>\<open>do\<close>, the first call of \<^verbatim>\<open>doWithRetry\<close>.\<close>

definition do_request ::
  "request \<Rightarrow> (nat \<Rightarrow> 'v attempt_env) \<Rightarrow> client \<times> nat \<times> event list
     \<Rightarrow> (error option \<times> 'v option) \<times> client \<times> nat \<times> event list" where
  "do_request rq env s = doWithRetry rq env False s"

section \<open>Reading a run\<close>

definition onceStatus :: "(int \<times> bool \<times> error option \<times> 'v option) \<times> client \<times> event list \<Rightarrow> int" where
  "onceStatus r = fst (fst r)"

definition onceRetry :: "(int \<times> bool \<times> error option \<times> 'v option) \<times> client \<times> event list \<Rightarrow> bool" where
  "onceRetry r = fst (snd (fst r))"

definition onceError ::
  "(int \<times> bool \<times> error option \<times> 'v option) \<times> client \<times> event list \<Rightarrow> error option" where
  "onceError r = fst (snd (snd (fst r)))"

definition onceClient ::
  "(int \<times> bool \<times> error option \<times> 'v option) \<times> client \<times> event list \<Rightarrow> client" where
  "onceClient r = fst (snd r)"

definition onceEvents ::
  "(int \<times> bool \<times> error option \<times> 'v option) \<times> client \<times> event list \<Rightarrow> event list" where
  "onceEvents r = snd (snd r)"

definition runError ::
  "(error option \<times> 'v option) \<times> client \<times> nat \<times> event list \<Rightarrow> error option" where
  "runError r = fst (fst r)"

definition runLog ::
  "(error option \<times> 'v option) \<times> client \<times> nat \<times> event list \<Rightarrow> event list" where
  "runLog r = snd (snd (snd r))"

text \<open>The attempt indices in a list of calls, and the number of calls of \<^verbatim>\<open>invalidate\<close>.\<close>

fun attemptsOf :: "event list \<Rightarrow> int list" where
  "attemptsOf [] = []"
| "attemptsOf (Attempt a # evs) = a # attemptsOf evs"
| "attemptsOf (ev # evs) = attemptsOf evs"

fun invalidations :: "event list \<Rightarrow> nat" where
  "invalidations [] = 0"
| "invalidations (Invalidate # evs) = Suc (invalidations evs)"
| "invalidations (ev # evs) = invalidations evs"

text \<open>The client before pass \<open>k\<close> of a run in which every earlier pass called \<^verbatim>\<open>doOnce\<close>.\<close>

primrec clientAt :: "request \<Rightarrow> (nat \<Rightarrow> 'v attempt_env) \<Rightarrow> client \<Rightarrow> nat \<Rightarrow> client" where
  "clientAt rq env c 0 = c"
| "clientAt rq env c (Suc k) = onceClient (doOnce rq (env k) (clientAt rq env c k))"

section \<open>Product operations\<close>

text \<open>
  The request of \<^verbatim>\<open>KeywordSearch\<close> in the revision of the product operations that reads
  \<^verbatim>\<open>req.Limit\<close> (the other revision reads \<^verbatim>\<open>req.RecordCount\<close> in the same places).  The
  field \<^verbatim>\<open>Limit\<close> is written \<open>Limit'\<close>, apart from the one of \<^verbatim>\<open>RateLimitError\<close>.
\<close>

record SearchRequest =
  Keywords :: string
  Limit' :: int
  Offset :: int

definition searchBasePath :: string where
  "searchBasePath = ''/products/v4/search''"

text \<open>
  What the product operations use beside the client and the request loop: the two
  cache-key functions and \<^verbatim>\<open>url.PathEscape\<close>, \<^verbatim>\<open>json.Unmarshal\<close> into and \<^verbatim>\<open>json.Marshal\<close>
  of the response type, the zero value of that type, and the clock readings inside
  \<^verbatim>\<open>cache.Get\<close> and \<^verbatim>\<open>cache.Set\<close>.
\<close>

record 'v products_env =
  cacheKeyForSearch :: "Locale \<Rightarrow> SearchRequest \<Rightarrow> string"
  cacheKeyForDetails :: "Locale \<Rightarrow> string \<Rightarrow> string"
  pathEscape :: "string \<Rightarrow> string"
  unmarshalResp :: "string \<Rightarrow> lib_error + 'v"
  marshalResp :: "'v \<Rightarrow> lib_error + string"
  zeroResp :: 'v
  cacheGetNow :: time
  cacheSetNow :: time

text \<open>
  The cache lookup that opens \<^verbatim>\<open>KeywordSearch\<close> and \<^verbatim>\<open>ProductDetails\<close>: the response to
  return at once, if any, and the client as the lookup leaves it.
\<close>

definition checkCache :: "'v products_env \<Rightarrow> string \<Rightarrow> client \<Rightarrow> 'v option \<times> client" where
  "checkCache P cacheKey c =
     (if Enabled (cacheConfig c) then
        (case cache c of
           None \<Rightarrow> (None, c)
         | Some m \<Rightarrow>
            (case cacheGet (cacheGetNow P) cacheKey m of
               (None, m') \<Rightarrow> (None, c\<lparr>cache := Some m'\<rparr>)
             | (Some cached, m') \<Rightarrow>
                (case unmarshalResp P cached of
                   Inr resp \<Rightarrow> (Some resp, c\<lparr>cache := Some m'\<rparr>)
                 | Inl e \<Rightarrow> (None, c\<lparr>cache := Some m'\<rparr>))))
      else (None, c))"

text \<open>The store that closes them.\<close>

definition storeCache :: "'v products_env \<Rightarrow> string \<Rightarrow> 'v \<Rightarrow> int \<Rightarrow> client \<Rightarrow> client" where
  "storeCache P cacheKey resp ttl c =
     (if Enabled (cacheConfig c) then
        (case cache c of
           None \<Rightarrow> c
         | Some m \<Rightarrow>
            (case marshalResp P resp of
               Inr data \<Rightarrow> c\<lparr>cache := Some (cacheSet (cacheSetNow P) cacheKey data ttl m)\<rparr>
             | Inl e \<Rightarrow> c))
      else c)"

definition KeywordSearch ::
  "'v products_env \<Rightarrow> (nat \<Rightarrow> 'v attempt_env) \<Rightarrow> SearchRequest option
     \<Rightarrow> client \<times> nat \<times> event list \<Rightarrow> (error + 'v) \<times> client \<times> nat \<times> event list" where
  "KeywordSearch P env req s =
     (case s of (c, k, log) \<Rightarrow>
      (case req of
         None \<Rightarrow> (Inl (ESentinel ErrInvalidRequest), c, k, log)
       | Some r \<Rightarrow>
          if Keywords r = [] then
            (Inl (ESuffix (ESentinel ErrInvalidRequest) ''keywords are required''), c, k, log)
          else
            (let searchReq0 = (if Limit' r \<le> 0 then r\<lparr>Limit' := 10\<rparr> else r);
                 searchReq = (if 50 < Limit' searchReq0 then searchReq0\<lparr>Limit' := 50\<rparr>
                              else searchReq0)
             in case checkCache P (cacheKeyForSearch P (locale c) searchReq) c of
                  (Some resp, c1) \<Rightarrow> (Inr resp, c1, k, log)
                | (None, c1) \<Rightarrow>
                   (case do_request \<lparr>reqMethod = ''POST'', reqPath = searchBasePath @ ''/keyword'',
                                     reqHasBody = True, reqHasResult = True\<rparr> env (c1, k, log) of
                      ((Some err, v), c2, k2, log2) \<Rightarrow> (Inl err, c2, k2, log2)
                    | ((None, v), c2, k2, log2) \<Rightarrow>
                        (let resp = (case v of None \<Rightarrow> zeroResp P | Some x \<Rightarrow> x)
                         in (Inr resp,
                             storeCache P (cacheKeyForSearch P (locale c2) searchReq) resp
                               (SearchTTL (cacheConfig c2)) c2,
                             k2, log2))))))"

definition ProductDetails ::
  "'v products_env \<Rightarrow> (nat \<Rightarrow> 'v attempt_env) \<Rightarrow> string
     \<Rightarrow> client \<times> nat \<times> event list \<Rightarrow> (error + 'v) \<times> client \<times> nat \<times> event list" where
  "ProductDetails P env productNumber s =
     (case s of (c, k, log) \<Rightarrow>
      if productNumber = [] then
        (Inl (ESuffix (ESentinel ErrInvalidRequest) ''product number is required''), c, k, log)
      else
        (case checkCache P (cacheKeyForDetails P (locale c) productNumber) c of
           (Some resp, c1) \<Rightarrow> (Inr resp, c1, k, log)
         | (None, c1) \<Rightarrow>
            (case do_request \<lparr>reqMethod = ''GET'',
                              reqPath = searchBasePath @ ''/'' @ pathEscape P productNumber
                                          @ ''/productdetails'',
                              reqHasBody = False, reqHasResult = True\<rparr> env (c1, k, log) of
               ((Some err, v), c2, k2, log2) \<Rightarrow> (Inl err, c2, k2, log2)
             | ((None, v), c2, k2, log2) \<Rightarrow>
                 (let resp = (case v of None \<Rightarrow> zeroResp P | Some x \<Rightarrow> x)
                  in (Inr resp,
                      storeCache P (cacheKeyForDetails P (locale c2) productNumber) resp
                        (DetailsTTL (cacheConfig c2)) c2,
                      k2, log2)))))"

section \<open>Concurrent callers of the token manager\<close>

text \<open>
  \<^verbatim>\<open>getToken\<close> reads the two fields under the read lock, and \<^verbatim>\<open>refreshToken\<close> holds the
  write lock from its first statement to its return.  A caller therefore acts on the
  manager in at most two indivisible steps: the read with its check, and, when the check
  fails, the whole of \<^verbatim>\<open>refreshToken\<close>.  A caller is before its read (\<open>Start\<close>), between
  the two (\<open>Waiting\<close> for the write lock), or has returned.  A schedule names the caller
  that takes the next step; caller \<open>i\<close> meets \<open>env i\<close>.
\<close>

datatype caller = Start | Waiting | Returned "error + string"

definition callerStep ::
  "(nat \<Rightarrow> token_env) \<Rightarrow> nat \<Rightarrow> tokenManager \<times> caller list \<times> event list
     \<Rightarrow> tokenManager \<times> caller list \<times> event list" where
  "callerStep env i s =
     (case s of (tm, callers, log) \<Rightarrow>
      if i < length callers then
        (case callers ! i of
           Start \<Rightarrow>
             if accessToken tm \<noteq> [] \<and> nowCheck (env i) < tokenExpiry tm - tokenExpiryBuffer
             then (tm, callers[i := Returned (Inr (accessToken tm))], log)
             else (tm, callers[i := Waiting], log)
         | Waiting \<Rightarrow>
             (case refreshToken (env i) tm of
                (res, tm', evs) \<Rightarrow> (tm', callers[i := Returned res], log @ evs))
         | Returned res \<Rightarrow> (tm, callers, log))
      else (tm, callers, log))"

fun runSchedule ::
  "(nat \<Rightarrow> token_env) \<Rightarrow> nat list \<Rightarrow> tokenManager \<times> caller list \<times> event list
     \<Rightarrow> tokenManager \<times> caller list \<times> event list" where
  "runSchedule env [] s = s"
| "runSchedule env (i # sched) s = runSchedule env sched (callerStep env i s)"

fun isReturned :: "caller \<Rightarrow> bool" where
  "isReturned (Returned res) = True"
| "isReturned Start = False"
| "isReturned Waiting = False"

fun exchanges :: "event list \<Rightarrow> nat" where
  "exchanges [] = 0"
| "exchanges (TokenExchange # evs) = Suc (exchanges evs)"
| "exchanges (ev # evs) = exchanges evs"

text \<open>
  The token endpoint, asked with \<open>E\<close>, answers 200 with a body that is read and
  deserializes into \<open>tokenResp\<close>.
\<close>

definition exchangeGrants :: "token_env \<Rightarrow> tokenResponse \<Rightarrow> bool" where
  "exchangeGrants E tokenResp =
     (tokNewRequest E = None \<and>
      (case tokDo E of
         Inl e \<Rightarrow> False
       | Inr resp \<Rightarrow>
          (case tokReadAll resp of
             Inl e \<Rightarrow> False
           | Inr body \<Rightarrow> tokStatusCode resp = 200 \<and> tokTokenJSON resp = Inr tokenResp)))"

text \<open>
  What holds of \<open>N\<close> callers that began with the manager \<open>tm0\<close>, after any number of
  steps: either nobody has refreshed yet (the manager is still \<open>tm0\<close>, no exchange was
  made, nobody has returned), or one exchange was made, the token it stored passes every
  caller's re-validation, and whoever has returned holds that token.
\<close>

definition oneExchange ::
  "(nat \<Rightarrow> token_env) \<Rightarrow> nat \<Rightarrow> tokenManager
     \<Rightarrow> tokenManager \<times> caller list \<times> event list \<Rightarrow> bool" where
  "oneExchange env N tm0 s =
     (case s of (tm, callers, log) \<Rightarrow>
        length callers = N \<and>
        ((tm = tm0 \<and> exchanges log = 0 \<and> (\<forall>c\<in>set callers. \<not> isReturned c))
         \<or> (accessToken tm \<noteq> []
            \<and> (\<forall>j<N. nowRecheck (env j) < tokenExpiry tm - tokenExpiryBuffer)
            \<and> exchanges log = 1
            \<and> (\<forall>c\<in>set callers. isReturned c \<longrightarrow> c = Returned (Inr (accessToken tm))))))"

section \<open>Sample values\<close>

definition sampleClient :: "int \<Rightarrow> client" where
  "sampleClient maxRetries =
     \<lparr>baseURL = ''https://api.digikey.com'', clientID = ''id'',
      tokenManager = \<lparr>accessToken = ''tok'', tokenExpiry = 3600 * Second\<rparr>,
      rateLimiter = NewRateLimiter 0,
      retryConfig = \<lparr>MaxRetries = maxRetries\<rparr>,
      cache = None,
      cacheConfig = \<lparr>Enabled = False, SearchTTL = 5 * Minute, DetailsTTL = 5 * Minute\<rparr>,
      locale = \<lparr>Site = ''US'', Language = ''en'', Currency = ''USD''\<rparr>\<rparr>"

definition sampleRequest :: request where
  "sampleRequest = \<lparr>reqMethod = ''GET'', reqPath = ''/products/v4/search/X/productdetails'',
                     reqHasBody = False, reqHasResult = True\<rparr>"

definition syntaxError :: lib_error where
  "syntaxError = \<lparr>errText = ''unexpected end of JSON input'', errTimeout = False,
                   errTemporary = False\<rparr>"

definition deadlineExceeded :: lib_error where
  "deadlineExceeded = \<lparr>errText = ''context deadline exceeded'', errTimeout = True,
                        errTemporary = True\<rparr>"

definition connectionRefused :: lib_error where
  "connectionRefused = \<lparr>errText = ''connection refused'', errTimeout = False,
                         errTemporary = False\<rparr>"

text \<open>A response with the given status and \<^verbatim>\<open>Retry-After\<close> whose body is not valid JSON.\<close>

definition sampleResponse :: "int \<Rightarrow> int \<Rightarrow> unit http_response" where
  "sampleResponse status retryAfter =
     \<lparr>respStatusCode = status, respStatusText = ''status'', respRetryAfter = retryAfter,
      respRequestId = ''req-1'', respReadAll = Inr ''{'',
      respErrorJSON = None, respResultJSON = Inl syntaxError\<rparr>"

text \<open>A token endpoint that answers 200 with the given token and lifetime in seconds.\<close>

definition sampleTokenEnv :: "time \<Rightarrow> string \<Rightarrow> int \<Rightarrow> token_env" where
  "sampleTokenEnv now tok expiresIn =
     \<lparr>nowCheck = now, nowRecheck = now, tokNewRequest = None,
      tokDo = Inr \<lparr>tokStatusCode = 200, tokReadAll = Inr ''{}'', tokAuthJSON = None,
                   tokTokenJSON = Inr \<lparr>AccessToken = tok, TokenType = ''Bearer'',
                                        ExpiresIn = expiresIn\<rparr>\<rparr>,
      nowStore = now\<rparr>"

text \<open>A token endpoint that cannot be reached.\<close>

definition deadTokenEnv :: "time \<Rightarrow> token_env" where
  "deadTokenEnv now =
     \<lparr>nowCheck = now, nowRecheck = now, tokNewRequest = None,
      tokDo = Inl connectionRefused, nowStore = now\<rparr>"

text \<open>A pass at instant \<open>now\<close> whose data request gets the given response.\<close>

definition samplePass :: "time \<Rightarrow> lib_error option \<Rightarrow> unit http_response \<Rightarrow> unit attempt_env" where
  "samplePass now slept resp =
     \<lparr>sleepResult = slept, allowNow = now, tokenEnv = sampleTokenEnv now ''tok2'' 3600,
      marshalBody = None, newRequest = None, doResult = Inr resp, updateNow = now\<rparr>"

text \<open>Cache keys that join the locale and the parameters, and a response type of one value.\<close>

definition sampleProducts :: "unit products_env" where
  "sampleProducts =
     \<lparr>cacheKeyForSearch = (\<lambda>l r. ''search:'' @ Site l @ ''|'' @ Keywords r),
      cacheKeyForDetails = (\<lambda>l n. ''details:'' @ Site l @ ''|'' @ n),
      pathEscape = (\<lambda>n. n),
      unmarshalResp = (\<lambda>data. if data = ''{}'' then Inr () else Inl syntaxError),
      marshalResp = (\<lambda>v. Inr ''{}''),
      zeroResp = (),
      cacheGetNow = 20, cacheSetNow = 20\<rparr>"

text \<open>A client with caching enabled that holds a search entry and a details entry.\<close>

definition cachingClient :: client where
  "cachingClient =
     (sampleClient 3)
       \<lparr>cache := Some [''search:US|stm32'' \<mapsto> (''{}'', 5 * Minute),
                       ''details:US|497-15360-ND'' \<mapsto> (''{}'', 5 * Minute)],
        cacheConfig := \<lparr>Enabled = True, SearchTTL = 5 * Minute, DetailsTTL = 5 * Minute\<rparr>\<rparr>"

section \<open>Properties of the rate limiter\<close>

lemma Minute_le_day: "Minute \<le> 24 * Hour"
  by (simp add: Minute_def Hour_def Second_def)

lemma Allow_in_window:
  assumes "now \<le> minuteResetTime r" "now \<le> dayResetTime r"
    "minuteCount r < minuteLimit r" "dayCount r < dayLimit r"
  shows "Allow now r = (None, r\<lparr>minuteCount := minuteCount r + 1, dayCount := dayCount r + 1\<rparr>)"
  using assms by (simp add: Allow_def)

lemma Allow_minute_exhausted:
  assumes "now \<le> minuteResetTime r" "now \<le> dayResetTime r" "minuteLimit r \<le> minuteCount r"
  shows "Allow now r = (Some \<lparr>Limit = minuteLimit r, Remaining = 0,
                     ResetAt = minuteResetTime r, Type = ''minute''\<rparr>, r)"
  using assms by (simp add: Allow_def)

lemma Allows_in_window:
  assumes "\<forall>t\<in>set ts. t \<le> minuteResetTime r \<and> t \<le> dayResetTime r"
    "minuteCount r + int (length ts) \<le> minuteLimit r"
    "dayCount r + int (length ts) \<le> dayLimit r"
  shows "Allows ts r = (replicate (length ts) None,
           r\<lparr>minuteCount := minuteCount r + int (length ts),
             dayCount := dayCount r + int (length ts)\<rparr>)"
  using assms
proof (induction ts arbitrary: r)
  case Nil
  then show ?case by simp
next
  case (Cons t ts)
  let ?r' = "r\<lparr>minuteCount := minuteCount r + 1, dayCount := dayCount r + 1\<rparr>"
  have a: "Allow t r = (None, ?r')"
    using Cons.prems by (intro Allow_in_window) auto
  have "Allows ts ?r' = (replicate (length ts) None,
           ?r'\<lparr>minuteCount := minuteCount ?r' + int (length ts),
             dayCount := dayCount ?r' + int (length ts)\<rparr>)"
    using Cons.prems by (intro Cons.IH) auto
  with a show ?case by (simp add: add.assoc add.commute)
qed

lemma fresh_after_Allows:
  assumes "0 \<le> N" "int (length ts) \<le> N" "int (length ts) \<le> D" "\<forall>t\<in>set ts. t \<le> t0 + Minute"
  shows "Allows ts (NewRateLimiterWithLimits t0 N D) =
           (replicate (length ts) None,
            (NewRateLimiterWithLimits t0 N D)\<lparr>minuteCount := int (length ts), dayCount := int (length ts)\<rparr>)"
proof -
  let ?init = "NewRateLimiterWithLimits t0 N D"
  have w: "\<forall>t\<in>set ts. t \<le> minuteResetTime ?init \<and> t \<le> dayResetTime ?init"
    using assms(4) Minute_le_day by (auto simp: NewRateLimiterWithLimits_def)
  have "Allows ts ?init = (replicate (length ts) None,
           ?init\<lparr>minuteCount := minuteCount ?init + int (length ts),
             dayCount := dayCount ?init + int (length ts)\<rparr>)"
    using w assms(2,3) by (intro Allows_in_window) (simp_all add: NewRateLimiterWithLimits_def)
  then show ?thesis by (simp add: NewRateLimiterWithLimits_def)
qed

lemma StatsCalls_id: "StatsCalls ts r = r"
  by (induction ts arbitrary: r) (simp_all add: Stats_def Let_def)

text \<open>
  C3.  A limiter made at \<open>t0\<close> with minute limit \<open>N\<close> and day limit \<open>D \<ge> N\<close>, called
  \<open>N + 1\<close> times no later than its first minute reset: the first \<open>N\<close> calls of \<^verbatim>\<open>Allow\<close>
  succeed and the next fails with a \<^verbatim>\<open>RateLimitError\<close> of type \<open>minute\<close> (also when
  \<open>D = N\<close>, where the day window is exhausted as well), leaving the limiter as it was.
  For any limiter, a failing \<^verbatim>\<open>Allow\<close> leaves each count as the lazy reset left it
  (no increment), and reports \<open>day\<close> only when the minute window has room.
\<close>

theorem Allow_minute_limit:
  fixes N D :: int
  assumes "0 \<le> N" and "N \<le> D" and "length ts = nat N"
    and "\<forall>t\<in>set ts. t \<le> t0 + Minute" and "t \<le> t0 + Minute"
  shows "fst (Allows ts (NewRateLimiterWithLimits t0 N D)) = replicate (nat N) None
       \<and> (\<exists>e. fst (Allow t (snd (Allows ts (NewRateLimiterWithLimits t0 N D)))) = Some e
              \<and> Type e = ''minute'' \<and> Limit e = N)
       \<and> snd (Allow t (snd (Allows ts (NewRateLimiterWithLimits t0 N D))))
           = snd (Allows ts (NewRateLimiterWithLimits t0 N D))
       \<and> (\<forall>now r e r'. Allow now r = (Some e, r') \<longrightarrow>
             minuteCount r' = (if minuteResetTime r < now then 0 else minuteCount r)
           \<and> dayCount r' = (if dayResetTime r < now then 0 else dayCount r)
           \<and> (Type e = ''minute'' \<longleftrightarrow> minuteLimit r' \<le> minuteCount r')
           \<and> (Type e = ''day'' \<longleftrightarrow> minuteCount r' < minuteLimit r'))"
proof -
  let ?init = "NewRateLimiterWithLimits t0 N D"
  let ?r = "?init\<lparr>minuteCount := int (length ts), dayCount := int (length ts)\<rparr>"
  have len: "int (length ts) = N" using assms(1,3) by simp
  have run: "Allows ts ?init = (replicate (length ts) None, ?r)"
    using assms(1,2,4) len by (intro fresh_after_Allows) simp_all
  have "t \<le> minuteResetTime ?r" "t \<le> dayResetTime ?r" "minuteLimit ?r \<le> minuteCount ?r"
    using assms(5) Minute_le_day len by (simp_all add: NewRateLimiterWithLimits_def)
  then have last: "Allow t ?r = (Some \<lparr>Limit = minuteLimit ?r, Remaining = 0,
                     ResetAt = minuteResetTime ?r, Type = ''minute''\<rparr>, ?r)"
    by (rule Allow_minute_exhausted)
  have fail: "\<forall>now r e r'. Allow now r = (Some e, r') \<longrightarrow>
             minuteCount r' = (if minuteResetTime r < now then 0 else minuteCount r)
           \<and> dayCount r' = (if dayResetTime r < now then 0 else dayCount r)
           \<and> (Type e = ''minute'' \<longleftrightarrow> minuteLimit r' \<le> minuteCount r')
           \<and> (Type e = ''day'' \<longleftrightarrow> minuteCount r' < minuteLimit r')"
    by (auto simp: Allow_def Let_def split: if_splits)
  from run last fail show ?thesis
    using assms(3) by (simp add: NewRateLimiterWithLimits_def)
qed

theorem Allow_minute_limit_witness:
  "fst (Allows [10, 20] (NewRateLimiterWithLimits 0 2 2)) = [None, None]
   \<and> (\<exists>e. fst (Allow 30 (snd (Allows [10, 20] (NewRateLimiterWithLimits 0 2 2)))) = Some e
          \<and> Type e = ''minute'' \<and> Limit e = 2)
   \<and> minuteCount (snd (Allow 30 (snd (Allows [10, 20] (NewRateLimiterWithLimits 0 2 2))))) = 2
   \<and> dayCount (snd (Allow 30 (snd (Allows [10, 20] (NewRateLimiterWithLimits 0 2 2))))) = 2"
proof -
  have h1: "(0::int) \<le> 2" and h2: "(2::int) \<le> 2" and h3: "length [10, 20 :: int] = nat 2"
    and h4: "\<forall>t\<in>set [10, 20 :: int]. t \<le> 0 + Minute" and h5: "(30::int) \<le> 0 + Minute"
    by (simp_all add: Minute_def Second_def)
  have "snd (Allows [10, 20] (NewRateLimiterWithLimits 0 2 2))
      = \<lparr>minuteCount = 2, minuteResetTime = Minute, dayCount = 2, dayResetTime = 24 * Hour,
         minuteLimit = 2, dayLimit = 2\<rparr>"
    by (simp add: Allow_def NewRateLimiterWithLimits_def Minute_def Hour_def Second_def)
  with Allow_minute_limit [OF h1 h2 h3 h4 h5] show ?thesis
    by (simp add: numeral_2_eq_2)
qed

text \<open>
  C7.  For every \<open>n > 0\<close>, \<^verbatim>\<open>UpdateFromResponse\<close> is to set the minute reset time to \<open>now\<close>
  plus \<open>n\<close> seconds, so that \<^verbatim>\<open>Allow\<close> fails until then.  At \<open>n = 9223372037\<close> the code
  does not: the \<^verbatim>\<open>int64\<close> product with \<^verbatim>\<open>time.Second\<close> passes \<open>2\<^sup>6\<^sup>3\<close> and wraps, the
  reset time lands in the past, and an \<^verbatim>\<open>Allow\<close> one nanosecond later succeeds.
\<close>

theorem UpdateFromResponse_overflow:
  "minuteResetTime (UpdateFromResponse 0 9223372037 (NewRateLimiter 0)) = - 9223372036709551616
 \<and> minuteResetTime (UpdateFromResponse 0 9223372037 (NewRateLimiter 0)) \<noteq> 0 + 9223372037 * Second
 \<and> fst (Allow 1 (UpdateFromResponse 0 9223372037 (NewRateLimiter 0))) = None"
  by (simp add: UpdateFromResponse_def NewRateLimiter_def Allow_def seconds_def wrap64_def
      Second_def Minute_def Hour_def)

text \<open>
  Where the product does not wrap, the limiter is forced as intended.  For \<open>n \<le> 0\<close>,
  \<^verbatim>\<open>UpdateFromResponse\<close> leaves the whole limiter unchanged.  For \<open>n > 0\<close> it sets the
  minute count to the minute limit and leaves the day count, the day reset time and both
  limits unchanged.  For \<open>0 < n \<le> 9223372036\<close> it sets the minute reset time to \<open>now\<close>
  plus \<open>n\<close> seconds, and every \<^verbatim>\<open>Allow\<close> no later than that instant fails with type
  \<open>minute\<close>.
\<close>

lemma UpdateFromResponse_in_range:
  "(n \<le> 0 \<longrightarrow> UpdateFromResponse now n r = r)
 \<and> (0 < n \<longrightarrow>
      minuteCount (UpdateFromResponse now n r) = minuteLimit r
    \<and> dayCount (UpdateFromResponse now n r) = dayCount r
    \<and> dayResetTime (UpdateFromResponse now n r) = dayResetTime r
    \<and> minuteLimit (UpdateFromResponse now n r) = minuteLimit r
    \<and> dayLimit (UpdateFromResponse now n r) = dayLimit r)
 \<and> (0 < n \<and> n \<le> 9223372036 \<longrightarrow>
      minuteResetTime (UpdateFromResponse now n r) = now + n * Second
    \<and> (\<forall>t. t \<le> now + n * Second \<longrightarrow>
          (\<exists>e. fst (Allow t (UpdateFromResponse now n r)) = Some e \<and> Type e = ''minute'')))"
  by (auto simp: UpdateFromResponse_def Allow_def Let_def seconds_def wrap64_def Second_def)

lemma UpdateFromResponse_in_range_example:
  "UpdateFromResponse 5 0 (NewRateLimiter 0) = NewRateLimiter 0
 \<and> UpdateFromResponse 5 (- 10) (NewRateLimiter 0) = NewRateLimiter 0
 \<and> minuteCount (UpdateFromResponse 5 60 (NewRateLimiter 0)) = 120
 \<and> dayCount (UpdateFromResponse 5 60 (NewRateLimiter 0)) = 0
 \<and> minuteResetTime (UpdateFromResponse 5 60 (NewRateLimiter 0)) = 60000000005
 \<and> (\<exists>e. fst (Allow 7 (UpdateFromResponse 5 60 (NewRateLimiter 0))) = Some e \<and> Type e = ''minute'')"
  using UpdateFromResponse_in_range [of 0 5 "NewRateLimiter 0"]
    UpdateFromResponse_in_range [of "- 10" 5 "NewRateLimiter 0"]
    UpdateFromResponse_in_range [of 60 5 "NewRateLimiter 0"]
  by (simp add: NewRateLimiter_def Second_def)

text \<open>
  C8.  After \<open>K\<close> calls of \<^verbatim>\<open>Allow\<close> on a limiter made at \<open>t0\<close> with limits \<open>N\<close> and
  \<open>D\<close>, \<open>K\<close> at most both, all no later than the first minute reset: the calls succeed,
  and \<^verbatim>\<open>Stats\<close> read in the same window reports \<open>K\<close> used and \<open>N - K\<close>, \<open>D - K\<close>
  remaining.  \<^verbatim>\<open>Stats\<close> leaves any limiter as it found it, so \<^verbatim>\<open>Allow\<close> gives the same
  result and the same limiter after any number of calls of \<^verbatim>\<open>Stats\<close> as without them.
\<close>

theorem Stats_after_Allows:
  fixes N D :: int
  assumes "int (length ts) \<le> N" and "int (length ts) \<le> D"
    and "\<forall>t\<in>set ts. t \<le> t0 + Minute" and "t \<le> t0 + Minute"
  shows "fst (Allows ts (NewRateLimiterWithLimits t0 N D)) = replicate (length ts) None
       \<and> MinuteUsed (fst (Stats t (snd (Allows ts (NewRateLimiterWithLimits t0 N D))))) = int (length ts)
       \<and> MinuteRemaining (fst (Stats t (snd (Allows ts (NewRateLimiterWithLimits t0 N D))))) = N - int (length ts)
       \<and> DayUsed (fst (Stats t (snd (Allows ts (NewRateLimiterWithLimits t0 N D))))) = int (length ts)
       \<and> DayRemaining (fst (Stats t (snd (Allows ts (NewRateLimiterWithLimits t0 N D))))) = D - int (length ts)
       \<and> (\<forall>now r. snd (Stats now r) = r)
       \<and> (\<forall>nows now r. Allow now (StatsCalls nows r) = Allow now r)"
proof -
  let ?init = "NewRateLimiterWithLimits t0 N D"
  let ?r = "?init\<lparr>minuteCount := int (length ts), dayCount := int (length ts)\<rparr>"
  have "0 \<le> N" using assms(1) by linarith
  then have run: "Allows ts ?init = (replicate (length ts) None, ?r)"
    using assms by (intro fresh_after_Allows) simp_all
  have w: "\<not> minuteResetTime ?r < t" "\<not> dayResetTime ?r < t"
    using assms(4) Minute_le_day by (simp_all add: NewRateLimiterWithLimits_def)
  have st: "fst (Stats t ?r) = \<lparr>MinuteLimit = N, MinuteUsed = int (length ts),
           MinuteRemaining = N - int (length ts), MinuteResetAt = t0 + Minute,
           DayLimit = D, DayUsed = int (length ts),
           DayRemaining = D - int (length ts), DayResetAt = t0 + 24 * Hour\<rparr>"
    using w by (simp add: Stats_def Let_def NewRateLimiterWithLimits_def)
  have pure: "\<forall>now r. snd (Stats now r) = r"
    by (simp add: Stats_def Let_def)
  from run st pure show ?thesis
    by (simp add: StatsCalls_id)
qed

theorem Stats_after_Allows_witness:
  "fst (Allows [1, 2, 3] (NewRateLimiterWithLimits 0 10 100)) = [None, None, None]
 \<and> MinuteUsed (fst (Stats 4 (snd (Allows [1, 2, 3] (NewRateLimiterWithLimits 0 10 100))))) = 3
 \<and> MinuteRemaining (fst (Stats 4 (snd (Allows [1, 2, 3] (NewRateLimiterWithLimits 0 10 100))))) = 7
 \<and> DayUsed (fst (Stats 4 (snd (Allows [1, 2, 3] (NewRateLimiterWithLimits 0 10 100))))) = 3
 \<and> DayRemaining (fst (Stats 4 (snd (Allows [1, 2, 3] (NewRateLimiterWithLimits 0 10 100))))) = 97
 \<and> Allow 5 (StatsCalls [4, 4] (NewRateLimiterWithLimits 0 10 100)) = Allow 5 (NewRateLimiterWithLimits 0 10 100)"
proof -
  have h1: "int (length [1, 2, 3 :: int]) \<le> 10" and h2: "int (length [1, 2, 3 :: int]) \<le> 100"
    and h3: "\<forall>t\<in>set [1, 2, 3 :: int]. t \<le> 0 + Minute" and h4: "(4::int) \<le> 0 + Minute"
    by (simp_all add: Minute_def Second_def)
  from Stats_after_Allows [OF h1 h2 h3 h4] show ?thesis
    by simp
qed

section \<open>Properties of the request loop\<close>

lemma loop_done:
  "\<not> attempt < maxAttempts \<Longrightarrow>
   doWithRetry_loop rq env f maxAttempts attempt lastErr (c, k, log) = ((lastErr, None), c, k, log)"
  by (simp add: doWithRetry_loop.simps)

lemma loop_cancelled:
  "attempt < maxAttempts \<Longrightarrow> 0 < attempt \<Longrightarrow> sleepResult (env k) = Some e \<Longrightarrow>
   doWithRetry_loop rq env f maxAttempts attempt lastErr (c, k, log)
     = ((Some (ELib e), None), c, Suc k, log @ [Sleep (attempt - 1)])"
  by (simp add: doWithRetry_loop.simps)

lemma loop_pass:
  assumes "attempt < maxAttempts" and "0 < attempt \<longrightarrow> sleepResult (env k) = None"
    and "doOnce rq (env k) c = ((st, rt, err, v), c', evs)"
  shows "doWithRetry_loop rq env f maxAttempts attempt lastErr (c, k, log) =
     (case err of
        None \<Rightarrow> ((None, v), c', Suc k, passLog log attempt evs)
      | Some e \<Rightarrow>
          if st = 401 \<and> \<not> f
          then doWithRetry rq env True
                 (c'\<lparr>tokenManager := invalidate (tokenManager c')\<rparr>, Suc k,
                  passLog log attempt evs @ [Invalidate])
          else if \<not> rt then ((Some e, None), c', Suc k, passLog log attempt evs)
          else if maxAttempts - 1 \<le> attempt then ((Some e, None), c', Suc k, passLog log attempt evs)
          else doWithRetry_loop rq env f maxAttempts (attempt + 1) (Some e)
                 (c', Suc k, passLog log attempt evs))"
proof (cases err)
  case None
  with assms show ?thesis by (simp add: doWithRetry_loop.simps)
next
  case (Some e)
  with assms show ?thesis
    by (subst doWithRetry_loop.simps) (simp add: doWithRetry_def)
qed

lemma attemptsOf_append: "attemptsOf (xs @ ys) = attemptsOf xs @ attemptsOf ys"
  by (induction xs rule: attemptsOf.induct) simp_all

lemma invalidations_append: "invalidations (xs @ ys) = invalidations xs + invalidations ys"
  by (induction xs rule: invalidations.induct) simp_all

lemma refreshToken_events: "snd (snd (refreshToken E tm)) = [] \<or> snd (snd (refreshToken E tm)) = [TokenExchange]"
  by (simp add: refreshToken_def split: option.splits sum.splits)

lemma getToken_events: "snd (snd (getToken E tm)) = [] \<or> snd (snd (getToken E tm)) = [TokenExchange]"
  using refreshToken_events [of E tm] by (simp add: getToken_def)

lemma doOnce_attemptsOf: "attemptsOf (snd (snd (doOnce rq E c))) = []"
proof -
  obtain res tm' tevs where g: "getToken (tokenEnv E) (tokenManager c) = (res, tm', tevs)"
    by (cases "getToken (tokenEnv E) (tokenManager c)") auto
  with getToken_events [of "tokenEnv E" "tokenManager c"]
  have "tevs = [] \<or> tevs = [TokenExchange]" by simp
  then have t: "attemptsOf tevs = []" by auto
  show ?thesis
    using g t
    by (simp add: doOnce_def attemptsOf_append split: prod.splits option.splits sum.splits)
qed

lemma doOnce_invalidations: "invalidations (snd (snd (doOnce rq E c))) = 0"
proof -
  obtain res tm' tevs where g: "getToken (tokenEnv E) (tokenManager c) = (res, tm', tevs)"
    by (cases "getToken (tokenEnv E) (tokenManager c)") auto
  with getToken_events [of "tokenEnv E" "tokenManager c"]
  have "tevs = [] \<or> tevs = [TokenExchange]" by simp
  then have t: "invalidations tevs = 0" by auto
  show ?thesis
    using g t
    by (simp add: doOnce_def invalidations_append split: prod.splits option.splits sum.splits)
qed

lemma attemptsOf_passLog:
  "attemptsOf evs = [] \<Longrightarrow> attemptsOf (passLog log a evs) = attemptsOf log @ [a]"
  by (simp add: passLog_def attemptsOf_append)

lemma exhaust_from:
  fixes M :: nat
  assumes fail: "\<forall>k. k \<le> M \<longrightarrow>
            onceError (doOnce rq (env k) (clientAt rq env c k)) \<noteq> None
          \<and> onceRetry (doOnce rq (env k) (clientAt rq env c k))
          \<and> onceStatus (doOnce rq (env k) (clientAt rq env c k)) \<noteq> 401"
    and sl: "\<forall>k. 0 < k \<and> k \<le> M \<longrightarrow> sleepResult (env k) = None"
    and j: "j \<le> M"
  shows "\<exists>log'. doWithRetry_loop rq env f (int (Suc M)) (int j) lastErr (clientAt rq env c j, j, log)
           = ((onceError (doOnce rq (env M) (clientAt rq env c M)), None),
              clientAt rq env c (Suc M), Suc M, log')
         \<and> attemptsOf log' = attemptsOf log @ map int [j..<Suc M]"
  using j
proof (induction "M - j" arbitrary: j lastErr log)
  case 0
  then have jM: "j = M" by simp
  obtain st rt err v c' evs where d: "doOnce rq (env M) (clientAt rq env c M) = ((st, rt, err, v), c', evs)"
    by (metis prod_cases3 prod_cases4)
  from fail [rule_format, of M] d obtain e where e: "err = Some e" "rt" "st \<noteq> 401"
    by (auto simp: onceError_def onceRetry_def onceStatus_def)
  have ev: "attemptsOf evs = []" using doOnce_attemptsOf [of rq "env M" "clientAt rq env c M"] d by simp
  have "doWithRetry_loop rq env f (int (Suc M)) (int M) lastErr (clientAt rq env c M, M, log)
        = ((Some e, None), c', Suc M, passLog log (int M) evs)"
    using sl [rule_format, of M] e d
    by (subst loop_pass [where env = env and k = M and st = st and rt = rt and err = err
          and v = v and c' = c' and evs = evs]) simp_all
  then show ?case
    using jM d e ev by (simp add: onceError_def onceClient_def attemptsOf_passLog)
next
  case (Suc n)
  then have jM: "j < M" "n = M - Suc j" "Suc j \<le> M" by simp_all
  obtain st rt err v c' evs where d: "doOnce rq (env j) (clientAt rq env c j) = ((st, rt, err, v), c', evs)"
    by (metis prod_cases3 prod_cases4)
  from fail [rule_format, of j] d jM obtain e where e: "err = Some e" "rt" "st \<noteq> 401"
    by (auto simp: onceError_def onceRetry_def onceStatus_def)
  have ev: "attemptsOf evs = []" using doOnce_attemptsOf [of rq "env j" "clientAt rq env c j"] d by simp
  have c': "c' = clientAt rq env c (Suc j)" using d by (simp add: onceClient_def)
  have step: "doWithRetry_loop rq env f (int (Suc M)) (int j) lastErr (clientAt rq env c j, j, log)
        = doWithRetry_loop rq env f (int (Suc M)) (int (Suc j)) (Some e)
            (clientAt rq env c (Suc j), Suc j, passLog log (int j) evs)"
    using sl [rule_format, of j] e jM c' d
    by (subst loop_pass [where env = env and k = j and st = st and rt = rt and err = err
          and v = v and c' = c' and evs = evs]) (simp_all add: add.commute)
  from Suc.hyps(1) [OF jM(2) jM(3), of "Some e" "passLog log (int j) evs"]
  obtain log' where
    "doWithRetry_loop rq env f (int (Suc M)) (int (Suc j)) (Some e)
            (clientAt rq env c (Suc j), Suc j, passLog log (int j) evs)
       = ((onceError (doOnce rq (env M) (clientAt rq env c M)), None),
              clientAt rq env c (Suc M), Suc M, log')"
    "attemptsOf log' = attemptsOf (passLog log (int j) evs) @ map int [Suc j..<Suc M]"
    by blast
  with step ev jM show ?case
    by (simp add: attemptsOf_passLog upt_conv_Cons)
qed

lemma wrap64_id: "- 9223372036854775808 \<le> x \<Longrightarrow> x < 9223372036854775808 \<Longrightarrow> wrap64 x = x"
  by (simp add: wrap64_def)

lemma map_int_upt: "map int [0..<Suc n] = [0..int n]"
proof (induction n)
  case 0
  show ?case by simp
next
  case (Suc n)
  have "[0..int (Suc n)] = [0..int n] @ [int (Suc n)]"
    by (simp add: upto_rec2) 
  with Suc show ?case by simp
qed

lemma sample503_pass:
  assumes "tokenManager c = \<lparr>accessToken = ''tok'', tokenExpiry = 3600 * Second\<rparr>"
    and "rateLimiter c = (NewRateLimiter 0)\<lparr>minuteCount := n, dayCount := n\<rparr>"
    and "0 \<le> n" and "n < 120"
  shows "doOnce sampleRequest (samplePass 1 slept (sampleResponse 503 0)) c
       = ((503, True, Some (EAPI \<lparr>StatusCode = 503, Message = ''status'', Details = ''{'',
                                   RequestID = ''req-1''\<rparr>), None),
          c\<lparr>rateLimiter := (NewRateLimiter 0)\<lparr>minuteCount := n + 1, dayCount := n + 1\<rparr>\<rparr>,
          [AllowCall, Send ''tok''])"
  using assms
  by (simp add: doOnce_def Allow_def getToken_def samplePass_def sampleTokenEnv_def
      sampleResponse_def sampleRequest_def NewRateLimiter_def tokenExpiryBuffer_def
      Second_def Minute_def Hour_def shouldRetry_def handleErrorResponse_def)

lemma sample503_clientAt:
  "k \<le> 120 \<Longrightarrow>
   clientAt sampleRequest (\<lambda>k. samplePass 1 (slept k) (sampleResponse 503 0)) (sampleClient m) k
     = (sampleClient m)\<lparr>rateLimiter := (NewRateLimiter 0)\<lparr>minuteCount := int k, dayCount := int k\<rparr>\<rparr>"
proof (induction k)
  case 0
  show ?case by (simp add: sampleClient_def NewRateLimiter_def)
next
  case (Suc k)
  then have IH: "clientAt sampleRequest (\<lambda>k. samplePass 1 (slept k) (sampleResponse 503 0)) (sampleClient m) k
     = (sampleClient m)\<lparr>rateLimiter := (NewRateLimiter 0)\<lparr>minuteCount := int k, dayCount := int k\<rparr>\<rparr>"
    by simp
  have "doOnce sampleRequest (samplePass 1 (slept k) (sampleResponse 503 0))
          ((sampleClient m)\<lparr>rateLimiter := (NewRateLimiter 0)\<lparr>minuteCount := int k, dayCount := int k\<rparr>\<rparr>)
       = ((503, True, Some (EAPI \<lparr>StatusCode = 503, Message = ''status'', Details = ''{'',
                                   RequestID = ''req-1''\<rparr>), None),
          ((sampleClient m)\<lparr>rateLimiter := (NewRateLimiter 0)\<lparr>minuteCount := int k, dayCount := int k\<rparr>\<rparr>)
            \<lparr>rateLimiter := (NewRateLimiter 0)\<lparr>minuteCount := int k + 1, dayCount := int k + 1\<rparr>\<rparr>,
          [AllowCall, Send ''tok''])"
    using Suc.prems by (intro sample503_pass) (simp_all add: sampleClient_def)
  with IH show ?case by (simp add: onceClient_def add.commute)
qed

lemma sample503_once:
  assumes k: "k \<le> 119"
  shows "onceStatus (doOnce sampleRequest (samplePass 1 (slept k) (sampleResponse 503 0))
     (clientAt sampleRequest (\<lambda>k. samplePass 1 (slept k) (sampleResponse 503 0)) (sampleClient m) k)) = 503"
    and "onceRetry (doOnce sampleRequest (samplePass 1 (slept k) (sampleResponse 503 0))
     (clientAt sampleRequest (\<lambda>k. samplePass 1 (slept k) (sampleResponse 503 0)) (sampleClient m) k))"
    and "onceError (doOnce sampleRequest (samplePass 1 (slept k) (sampleResponse 503 0))
     (clientAt sampleRequest (\<lambda>k. samplePass 1 (slept k) (sampleResponse 503 0)) (sampleClient m) k))
      = Some (EAPI \<lparr>StatusCode = 503, Message = ''status'', Details = ''{'', RequestID = ''req-1''\<rparr>)"
    and "snd (snd (doOnce sampleRequest (samplePass 1 (slept k) (sampleResponse 503 0))
     (clientAt sampleRequest (\<lambda>k. samplePass 1 (slept k) (sampleResponse 503 0)) (sampleClient m) k)))
      = [AllowCall, Send ''tok'']"
proof -
  have "doOnce sampleRequest (samplePass 1 (slept k) (sampleResponse 503 0))
          ((sampleClient m)\<lparr>rateLimiter := (NewRateLimiter 0)\<lparr>minuteCount := int k, dayCount := int k\<rparr>\<rparr>)
       = ((503, True, Some (EAPI \<lparr>StatusCode = 503, Message = ''status'', Details = ''{'',
                                   RequestID = ''req-1''\<rparr>), None),
          ((sampleClient m)\<lparr>rateLimiter := (NewRateLimiter 0)\<lparr>minuteCount := int k, dayCount := int k\<rparr>\<rparr>)
            \<lparr>rateLimiter := (NewRateLimiter 0)\<lparr>minuteCount := int k + 1, dayCount := int k + 1\<rparr>\<rparr>,
          [AllowCall, Send ''tok''])"
    using k by (intro sample503_pass) (simp_all add: sampleClient_def)
  then show
    "onceStatus (doOnce sampleRequest (samplePass 1 (slept k) (sampleResponse 503 0))
     (clientAt sampleRequest (\<lambda>k. samplePass 1 (slept k) (sampleResponse 503 0)) (sampleClient m) k)) = 503"
    "onceRetry (doOnce sampleRequest (samplePass 1 (slept k) (sampleResponse 503 0))
     (clientAt sampleRequest (\<lambda>k. samplePass 1 (slept k) (sampleResponse 503 0)) (sampleClient m) k))"
    "onceError (doOnce sampleRequest (samplePass 1 (slept k) (sampleResponse 503 0))
     (clientAt sampleRequest (\<lambda>k. samplePass 1 (slept k) (sampleResponse 503 0)) (sampleClient m) k))
      = Some (EAPI \<lparr>StatusCode = 503, Message = ''status'', Details = ''{'', RequestID = ''req-1''\<rparr>)"
    "snd (snd (doOnce sampleRequest (samplePass 1 (slept k) (sampleResponse 503 0))
     (clientAt sampleRequest (\<lambda>k. samplePass 1 (slept k) (sampleResponse 503 0)) (sampleClient m) k)))
      = [AllowCall, Send ''tok'']"
    using k by (simp_all add: sample503_clientAt onceStatus_def onceRetry_def onceError_def)
qed

text \<open>
  C1, as stated, fails in two ways.  With \<^verbatim>\<open>MaxRetries = 3\<close>, a first attempt that gets
  503 (a retryable outcome, not a 401) and a backoff sleep that the context's deadline
  cuts short: one attempt is made and the context's error is returned.  With
  \<^verbatim>\<open>MaxRetries\<close> the largest \<^verbatim>\<open>int\<close>, where \<^verbatim>\<open>MaxRetries + 1\<close> wraps to the smallest: no
  attempt is made and \<^verbatim>\<open>nil\<close> is returned.
\<close>

theorem doWithRetry_fewer_attempts:
  "onceStatus (doOnce sampleRequest (samplePass 1 None (sampleResponse 503 0)) (sampleClient 3)) = 503
 \<and> onceRetry (doOnce sampleRequest (samplePass 1 None (sampleResponse 503 0)) (sampleClient 3))
 \<and> attemptsOf (runLog (doWithRetry sampleRequest
       (\<lambda>k. samplePass 1 (if k = 0 then None else Some deadlineExceeded) (sampleResponse 503 0)) False
       (sampleClient 3, 0, []))) = [0]
 \<and> runError (doWithRetry sampleRequest
       (\<lambda>k. samplePass 1 (if k = 0 then None else Some deadlineExceeded) (sampleResponse 503 0)) False
       (sampleClient 3, 0, [])) = Some (ELib deadlineExceeded)
 \<and> attemptsOf (runLog (doWithRetry sampleRequest (\<lambda>k. samplePass 1 None (sampleResponse 503 0)) False
       (sampleClient 9223372036854775807, 0, []))) = []
 \<and> runError (doWithRetry sampleRequest (\<lambda>k. samplePass 1 None (sampleResponse 503 0)) False
       (sampleClient 9223372036854775807, 0, [])) = None"
proof -
  let ?slept = "\<lambda>k::nat. if k = 0 then None else Some deadlineExceeded"
  let ?env = "\<lambda>k::nat. samplePass 1 (?slept k) (sampleResponse 503 0)"
  let ?c1 = "(sampleClient 3)\<lparr>rateLimiter := (NewRateLimiter 0)\<lparr>minuteCount := 0 + 1, dayCount := 0 + 1\<rparr>\<rparr>"
  have d: "doOnce sampleRequest (samplePass 1 None (sampleResponse 503 0)) (sampleClient 3)
     = ((503, True, Some (EAPI \<lparr>StatusCode = 503, Message = ''status'', Details = ''{'',
                                   RequestID = ''req-1''\<rparr>), None), ?c1, [AllowCall, Send ''tok''])"
    by (rule sample503_pass) (simp_all add: sampleClient_def NewRateLimiter_def)
  have e0: "?env 0 = samplePass 1 None (sampleResponse 503 0)" by simp
  have w3: "wrap64 (MaxRetries (retryConfig (sampleClient 3)) + 1) = 4"
    by (simp add: sampleClient_def wrap64_def)
  have p0: "doWithRetry_loop sampleRequest ?env False 4 0 None (sampleClient 3, 0, [])
     = doWithRetry_loop sampleRequest ?env False 4 (0 + 1)
         (Some (EAPI \<lparr>StatusCode = 503, Message = ''status'', Details = ''{'', RequestID = ''req-1''\<rparr>))
         (?c1, Suc 0, passLog [] 0 [AllowCall, Send ''tok''])"
    by (subst loop_pass [where env = ?env and k = 0 and st = 503 and rt = True
          and err = "Some (EAPI \<lparr>StatusCode = 503, Message = ''status'', Details = ''{'', RequestID = ''req-1''\<rparr>)"
          and v = None and c' = ?c1 and evs = "[AllowCall, Send ''tok'']"])
       (simp_all add: d)
  have p1: "doWithRetry_loop sampleRequest ?env False 4 (0 + 1)
         (Some (EAPI \<lparr>StatusCode = 503, Message = ''status'', Details = ''{'', RequestID = ''req-1''\<rparr>))
         (?c1, Suc 0, passLog [] 0 [AllowCall, Send ''tok''])
     = ((Some (ELib deadlineExceeded), None), ?c1, Suc (Suc 0),
        passLog [] 0 [AllowCall, Send ''tok''] @ [Sleep (0 + 1 - 1)])"
    by (rule loop_cancelled) (simp_all add: samplePass_def)
  have run1: "doWithRetry sampleRequest ?env False (sampleClient 3, 0, [])
     = ((Some (ELib deadlineExceeded), None), ?c1, Suc (Suc 0),
        passLog [] 0 [AllowCall, Send ''tok''] @ [Sleep (0 + 1 - 1)])"
    unfolding doWithRetry_def fst_conv w3 p0 p1 ..
  have wmax: "wrap64 (MaxRetries (retryConfig (sampleClient 9223372036854775807)) + 1)
                = - 9223372036854775808"
    by (simp add: sampleClient_def wrap64_def)
  have run2: "doWithRetry sampleRequest (\<lambda>k. samplePass 1 None (sampleResponse 503 0)) False
       (sampleClient 9223372036854775807, 0, [])
     = ((None, None), sampleClient 9223372036854775807, 0, [])"
    unfolding doWithRetry_def fst_conv wmax by (rule loop_done) simp
  show ?thesis
    unfolding run1 run2 d
    by (simp add: onceStatus_def onceRetry_def runLog_def runError_def passLog_def)
qed

text \<open>
  C1, amended.  With \<open>0 \<le> MaxRetries < 2\<^sup>6\<^sup>3 - 1\<close>, in a call of \<^verbatim>\<open>doWithRetry\<close> (first
  or after a 401) where each of the passes \<open>0..MaxRetries\<close> ends in an error that
  \<^verbatim>\<open>doOnce\<close> marks retryable with a status other than 401, and no backoff sleep returns
  an error: the attempts made are exactly those with indices \<open>0..MaxRetries\<close>, and the
  error returned is the one of the last attempt.
\<close>

theorem doWithRetry_exhausts:
  assumes m: "0 \<le> MaxRetries (retryConfig c)" "MaxRetries (retryConfig c) < 9223372036854775807"
    and fail: "\<forall>k. int k \<le> MaxRetries (retryConfig c) \<longrightarrow>
            onceError (doOnce rq (env k) (clientAt rq env c k)) \<noteq> None
          \<and> onceRetry (doOnce rq (env k) (clientAt rq env c k))
          \<and> onceStatus (doOnce rq (env k) (clientAt rq env c k)) \<noteq> 401"
    and sl: "\<forall>k. 0 < k \<and> int k \<le> MaxRetries (retryConfig c) \<longrightarrow> sleepResult (env k) = None"
  shows "attemptsOf (runLog (doWithRetry rq env f (c, 0, []))) = [0..MaxRetries (retryConfig c)]
       \<and> runError (doWithRetry rq env f (c, 0, []))
           = onceError (doOnce rq (env (nat (MaxRetries (retryConfig c))))
                          (clientAt rq env c (nat (MaxRetries (retryConfig c)))))
       \<and> runError (doWithRetry rq env f (c, 0, [])) \<noteq> None"
proof -
  define M where "M = nat (MaxRetries (retryConfig c))"
  have M: "MaxRetries (retryConfig c) = int M" using m(1) by (simp add: M_def)
  have w: "wrap64 (MaxRetries (retryConfig c) + 1) = int (Suc M)"
    using m by (simp add: wrap64_id M)
  have f': "\<forall>k. k \<le> M \<longrightarrow>
            onceError (doOnce rq (env k) (clientAt rq env c k)) \<noteq> None
          \<and> onceRetry (doOnce rq (env k) (clientAt rq env c k))
          \<and> onceStatus (doOnce rq (env k) (clientAt rq env c k)) \<noteq> 401"
    using fail by (simp add: M)
  have s': "\<forall>k. 0 < k \<and> k \<le> M \<longrightarrow> sleepResult (env k) = None"
    using sl by (simp add: M)
  from exhaust_from [OF f' s', of 0 f None "[]"]
  obtain log' where
    "doWithRetry_loop rq env f (int (Suc M)) 0 None (c, 0, [])
       = ((onceError (doOnce rq (env M) (clientAt rq env c M)), None),
              clientAt rq env c (Suc M), Suc M, log')"
    "attemptsOf log' = map int [0..<Suc M]"
    by auto
  then show ?thesis
    using w f' [rule_format, of M] map_int_upt [of M]
    by (simp add: doWithRetry_def runLog_def runError_def M del: upt_Suc)
qed

theorem doWithRetry_exhausts_witness:
  "attemptsOf (runLog (doWithRetry sampleRequest (\<lambda>k. samplePass 1 None (sampleResponse 503 0)) False
                         (sampleClient 3, 0, []))) = [0, 1, 2, 3]
 \<and> (\<exists>e. runError (doWithRetry sampleRequest (\<lambda>k. samplePass 1 None (sampleResponse 503 0)) False
                         (sampleClient 3, 0, [])) = Some (EAPI e)
        \<and> StatusCode e = 503 \<and> APIError_Unwrap e = Some ErrServerError)"
proof -
  let ?env = "\<lambda>k::nat. samplePass 1 None (sampleResponse 503 0)"
  have mr: "MaxRetries (retryConfig (sampleClient 3)) = 3"
    by (simp add: sampleClient_def)
  have h1: "0 \<le> MaxRetries (retryConfig (sampleClient 3))"
    and h2: "MaxRetries (retryConfig (sampleClient 3)) < 9223372036854775807"
    by (simp_all add: mr)
  have h3: "\<forall>k. int k \<le> MaxRetries (retryConfig (sampleClient 3)) \<longrightarrow>
            onceError (doOnce sampleRequest (?env k) (clientAt sampleRequest ?env (sampleClient 3) k)) \<noteq> None
          \<and> onceRetry (doOnce sampleRequest (?env k) (clientAt sampleRequest ?env (sampleClient 3) k))
          \<and> onceStatus (doOnce sampleRequest (?env k) (clientAt sampleRequest ?env (sampleClient 3) k)) \<noteq> 401"
    unfolding mr
  proof (intro allI impI)
    fix k :: nat
    assume "int k \<le> 3"
    then have "k \<le> 119" by simp
    from sample503_once [OF this, where slept = "\<lambda>k. None" and m = 3]
    show "onceError (doOnce sampleRequest (?env k) (clientAt sampleRequest ?env (sampleClient 3) k)) \<noteq> None
          \<and> onceRetry (doOnce sampleRequest (?env k) (clientAt sampleRequest ?env (sampleClient 3) k))
          \<and> onceStatus (doOnce sampleRequest (?env k) (clientAt sampleRequest ?env (sampleClient 3) k)) \<noteq> 401"
      by simp
  qed
  have h4: "\<forall>k. 0 < k \<and> int k \<le> MaxRetries (retryConfig (sampleClient 3)) \<longrightarrow> sleepResult (?env k) = None"
    by (simp add: samplePass_def)
  have up: "[0..3::int] = [0, 1, 2, 3]"
    by (simp add: upto_rec1)
  have last: "onceError (doOnce sampleRequest (?env 3) (clientAt sampleRequest ?env (sampleClient 3) 3))
     = Some (EAPI \<lparr>StatusCode = 503, Message = ''status'', Details = ''{'', RequestID = ''req-1''\<rparr>)"
    using sample503_once(3) [where slept = "\<lambda>k. None" and k = 3 and m = 3] by simp
  from doWithRetry_exhausts [OF h1 h2 h3 h4, of False] show ?thesis
    unfolding mr up nat_numeral last by (simp add: APIError_Unwrap_def)
qed

lemma doOnce_read_body:
  assumes "Allow (allowNow E) (rateLimiter c) = (None, r')"
    and "getToken (tokenEnv E) (tokenManager c) = (Inr token, tm', tevs)"
    and "reqHasBody rq \<longrightarrow> marshalBody E = None"
    and "newRequest E = None"
    and "doResult E = Inr resp"
    and "respReadAll resp = Inr body"
  shows "doOnce rq E c =
     (if respStatusCode resp = 429
      then ((respStatusCode resp, True, Some (handleErrorResponse resp body), None),
            c\<lparr>rateLimiter := UpdateFromResponse (updateNow E) (respRetryAfter resp) r',
              tokenManager := tm'\<rparr>,
            AllowCall # tevs @ [Send token])
      else if respStatusCode resp = 401
      then ((respStatusCode resp, False,
             Some (EAPI \<lparr>StatusCode = respStatusCode resp, Message = ''unauthorized'',
                         Details = body, RequestID = respRequestId resp\<rparr>), None),
            c\<lparr>rateLimiter := r', tokenManager := tm'\<rparr>, AllowCall # tevs @ [Send token])
      else if respStatusCode resp < 200 \<or> 300 \<le> respStatusCode resp
      then ((respStatusCode resp, shouldRetry None (respStatusCode resp),
             Some (handleErrorResponse resp body), None),
            c\<lparr>rateLimiter := r', tokenManager := tm'\<rparr>, AllowCall # tevs @ [Send token])
      else if reqHasResult rq \<and> body \<noteq> []
      then (case respResultJSON resp of
              Inl e \<Rightarrow>
                ((respStatusCode resp, False,
                  Some (EWrap ''digikey: failed to parse response'' (ELib e)), None),
                 c\<lparr>rateLimiter := r', tokenManager := tm'\<rparr>, AllowCall # tevs @ [Send token])
            | Inr v \<Rightarrow>
                ((respStatusCode resp, False, None, Some v),
                 c\<lparr>rateLimiter := r', tokenManager := tm'\<rparr>, AllowCall # tevs @ [Send token]))
      else ((respStatusCode resp, False, None, None),
            c\<lparr>rateLimiter := r', tokenManager := tm'\<rparr>, AllowCall # tevs @ [Send token]))"
  using assms by (cases "reqHasBody rq") (simp_all add: doOnce_def)

lemma doOnce_status_401:
  assumes "onceStatus (doOnce rq E c) = 401"
  shows "\<not> onceRetry (doOnce rq E c)" and "onceError (doOnce rq E c) \<noteq> None"
    and "\<exists>resp. doResult E = Inr resp \<and> respStatusCode resp = 401"
  using assms
  by (auto simp: doOnce_def onceStatus_def onceRetry_def onceError_def
      split: prod.splits option.splits sum.splits if_splits)

lemma invalidations_passLog:
  "invalidations (passLog log a (onceEvents (doOnce rq E c))) = invalidations log"
  using doOnce_invalidations [of rq E c]
  by (simp add: passLog_def invalidations_append onceEvents_def)

lemma once_cases:
  obtains st rt err v c' evs where "doOnce rq E c = ((st, rt, err, v), c', evs)"
  by (metis prod_cases3 prod_cases4)

lemma invalidations_retry:
  "invalidations (runLog (doWithRetry_loop rq env True m a le (c, k, log))) = invalidations log"
proof (induction "nat (m - a)" arbitrary: a le c k log)
  case 0
  then have "\<not> a < m" by simp
  then show ?case by (simp add: loop_done runLog_def)
next
  case (Suc n)
  then have am: "a < m" and n: "n = nat (m - (a + 1))" by simp_all
  show ?case
  proof (cases "0 < a \<and> sleepResult (env k) \<noteq> None")
    case True
    then obtain e where "sleepResult (env k) = Some e" "0 < a" by auto
    with am show ?thesis
      by (simp add: loop_cancelled runLog_def invalidations_append)
  next
    case False
    then have sl: "0 < a \<longrightarrow> sleepResult (env k) = None" by simp
    obtain st rt err v c' evs where d: "doOnce rq (env k) c = ((st, rt, err, v), c', evs)"
      by (rule once_cases)
    have ev: "invalidations (passLog log a evs) = invalidations log"
      using invalidations_passLog [of log a rq "env k" c] d by (simp add: onceEvents_def)
    show ?thesis
    proof (cases err)
      case None
      with am sl d ev show ?thesis
        by (subst loop_pass [where env = env and k = k and st = st and rt = rt and err = err
              and v = v and c' = c' and evs = evs]) (simp_all add: runLog_def)
    next
      case (Some e)
      show ?thesis
      proof (cases "\<not> rt \<or> m - 1 \<le> a")
        case True
        with am sl d ev Some show ?thesis
          by (subst loop_pass [where env = env and k = k and st = st and rt = rt and err = err
                and v = v and c' = c' and evs = evs]) (auto simp: runLog_def)
      next
        case False
        with am sl d Some
        have "doWithRetry_loop rq env True m a le (c, k, log)
            = doWithRetry_loop rq env True m (a + 1) (Some e) (c', Suc k, passLog log a evs)"
          by (subst loop_pass [where env = env and k = k and st = st and rt = rt and err = err
                and v = v and c' = c' and evs = evs]) simp_all
        with Suc.hyps(1) [OF n, of "Some e" c' "Suc k" "passLog log a evs"] ev
        show ?thesis by simp
      qed
    qed
  qed
qed

lemma invalidations_first:
  "invalidations (runLog (doWithRetry_loop rq env False m a le (c, k, log))) \<le> invalidations log + 1"
proof (induction "nat (m - a)" arbitrary: a le c k log)
  case 0
  then have "\<not> a < m" by simp
  then show ?case by (simp add: loop_done runLog_def)
next
  case (Suc n)
  then have am: "a < m" and n: "n = nat (m - (a + 1))" by simp_all
  show ?case
  proof (cases "0 < a \<and> sleepResult (env k) \<noteq> None")
    case True
    then obtain e where "sleepResult (env k) = Some e" "0 < a" by auto
    with am show ?thesis
      by (simp add: loop_cancelled runLog_def invalidations_append)
  next
    case False
    then have sl: "0 < a \<longrightarrow> sleepResult (env k) = None" by simp
    obtain st rt err v c' evs where d: "doOnce rq (env k) c = ((st, rt, err, v), c', evs)"
      by (rule once_cases)
    have ev: "invalidations (passLog log a evs) = invalidations log"
      using invalidations_passLog [of log a rq "env k" c] d by (simp add: onceEvents_def)
    show ?thesis
    proof (cases err)
      case None
      with am sl d ev show ?thesis
        by (subst loop_pass [where env = env and k = k and st = st and rt = rt and err = err
              and v = v and c' = c' and evs = evs]) (simp_all add: runLog_def)
    next
      case (Some e)
      show ?thesis
      proof (cases "st = 401")
        case True
        with am sl d Some
        have "doWithRetry_loop rq env False m a le (c, k, log)
            = doWithRetry rq env True (c'\<lparr>tokenManager := invalidate (tokenManager c')\<rparr>, Suc k,
                passLog log a evs @ [Invalidate])"
          by (subst loop_pass [where env = env and k = k and st = st and rt = rt and err = err
                and v = v and c' = c' and evs = evs]) simp_all
        then show ?thesis
          using ev by (simp add: doWithRetry_def invalidations_retry invalidations_append)
      next
        case st: False
        show ?thesis
        proof (cases "\<not> rt \<or> m - 1 \<le> a")
          case True
          with am sl d ev Some st show ?thesis
            by (subst loop_pass [where env = env and k = k and st = st and rt = rt and err = err
                  and v = v and c' = c' and evs = evs]) (auto simp: runLog_def)
        next
          case False
          with am sl d Some st
          have "doWithRetry_loop rq env False m a le (c, k, log)
              = doWithRetry_loop rq env False m (a + 1) (Some e) (c', Suc k, passLog log a evs)"
            by (subst loop_pass [where env = env and k = k and st = st and rt = rt and err = err
                  and v = v and c' = c' and evs = evs]) simp_all
          with Suc.hyps(1) [OF n, of "Some e" c' "Suc k" "passLog log a evs"] ev
          show ?thesis by simp
        qed
      qed
    qed
  qed
qed

lemmas sample_defs =
  Allow_def getToken_def refreshToken_def samplePass_def sampleTokenEnv_def
  sampleResponse_def sampleRequest_def sampleClient_def NewRateLimiter_def tokenExpiryBuffer_def
  Second_def Minute_def Hour_def shouldRetry_def handleErrorResponse_def invalidate_def
  UpdateFromResponse_def seconds_def wrap64_def zeroTime_def

text \<open>
  C2.  A pass of the first call (\<^verbatim>\<open>isRetryAfter401\<close> false) in which \<^verbatim>\<open>doOnce\<close> returns
  status 401, which it does only for a response with that status, calls \<^verbatim>\<open>invalidate\<close>
  and goes on as \<^verbatim>\<open>doWithRetry\<close> called anew with \<^verbatim>\<open>isRetryAfter401\<close> true: attempt 0,
  no last error, \<^verbatim>\<open>maxAttempts\<close> computed again.  The same pass in that second call
  returns the error at once.  \<^verbatim>\<open>invalidate\<close> empties the token.  A first call
  invalidates at most once and a second call never, whatever the passes meet.
\<close>

theorem reauthenticate_once:
  "(attempt < maxAttempts \<and> (0 < attempt \<longrightarrow> sleepResult (env k) = None)
      \<and> onceStatus (doOnce rq (env k) c) = 401 \<longrightarrow>
      doWithRetry_loop rq env False maxAttempts attempt lastErr (c, k, log)
        = doWithRetry rq env True
            ((onceClient (doOnce rq (env k) c))
               \<lparr>tokenManager := invalidate (tokenManager (onceClient (doOnce rq (env k) c)))\<rparr>,
             Suc k, passLog log attempt (onceEvents (doOnce rq (env k) c)) @ [Invalidate])
    \<and> doWithRetry_loop rq env True maxAttempts attempt lastErr (c, k, log)
        = ((onceError (doOnce rq (env k) c), None), onceClient (doOnce rq (env k) c), Suc k,
           passLog log attempt (onceEvents (doOnce rq (env k) c)))
    \<and> onceError (doOnce rq (env k) c) \<noteq> None
    \<and> (\<exists>resp. doResult (env k) = Inr resp \<and> respStatusCode resp = 401))
 \<and> accessToken (invalidate tm) = []
 \<and> invalidations (runLog (doWithRetry rq env False (c, k, log))) \<le> invalidations log + 1
 \<and> invalidations (runLog (doWithRetry rq env True (c, k, log))) = invalidations log"
proof -
  have restart: "doWithRetry_loop rq env False maxAttempts attempt lastErr (c, k, log)
        = doWithRetry rq env True
            ((onceClient (doOnce rq (env k) c))
               \<lparr>tokenManager := invalidate (tokenManager (onceClient (doOnce rq (env k) c)))\<rparr>,
             Suc k, passLog log attempt (onceEvents (doOnce rq (env k) c)) @ [Invalidate])"
    and terminal: "doWithRetry_loop rq env True maxAttempts attempt lastErr (c, k, log)
        = ((onceError (doOnce rq (env k) c), None), onceClient (doOnce rq (env k) c), Suc k,
           passLog log attempt (onceEvents (doOnce rq (env k) c)))"
    and err: "onceError (doOnce rq (env k) c) \<noteq> None"
    and resp: "\<exists>resp. doResult (env k) = Inr resp \<and> respStatusCode resp = 401"
    if am: "attempt < maxAttempts" and sl: "0 < attempt \<longrightarrow> sleepResult (env k) = None"
      and st: "onceStatus (doOnce rq (env k) c) = 401"
  proof -
    obtain s rt e v c' evs where d: "doOnce rq (env k) c = ((s, rt, e, v), c', evs)"
      by (rule once_cases)
    from doOnce_status_401 [OF st] d st obtain x where
      x: "s = 401" "\<not> rt" "e = Some x"
      by (auto simp: onceStatus_def onceRetry_def onceError_def)
    show "onceError (doOnce rq (env k) c) \<noteq> None"
      and "\<exists>resp. doResult (env k) = Inr resp \<and> respStatusCode resp = 401"
      using doOnce_status_401 [OF st] by simp_all
    show "doWithRetry_loop rq env False maxAttempts attempt lastErr (c, k, log)
        = doWithRetry rq env True
            ((onceClient (doOnce rq (env k) c))
               \<lparr>tokenManager := invalidate (tokenManager (onceClient (doOnce rq (env k) c)))\<rparr>,
             Suc k, passLog log attempt (onceEvents (doOnce rq (env k) c)) @ [Invalidate])"
      using am sl d x
      by (subst loop_pass [where env = env and k = k and st = s and rt = rt and err = e
            and v = v and c' = c' and evs = evs]) (simp_all add: onceClient_def onceEvents_def)
    show "doWithRetry_loop rq env True maxAttempts attempt lastErr (c, k, log)
        = ((onceError (doOnce rq (env k) c), None), onceClient (doOnce rq (env k) c), Suc k,
           passLog log attempt (onceEvents (doOnce rq (env k) c)))"
      using am sl d x
      by (subst loop_pass [where env = env and k = k and st = s and rt = rt and err = e
            and v = v and c' = c' and evs = evs])
         (simp_all add: onceClient_def onceEvents_def onceError_def)
  qed
  have inv: "accessToken (invalidate tm) = []"
    by (simp add: invalidate_def)
  have b1: "invalidations (runLog (doWithRetry rq env False (c, k, log))) \<le> invalidations log + 1"
    unfolding doWithRetry_def by (rule invalidations_first)
  have b2: "invalidations (runLog (doWithRetry rq env True (c, k, log))) = invalidations log"
    unfolding doWithRetry_def by (rule invalidations_retry)
  from restart terminal err resp inv b1 b2 show ?thesis
    by blast
qed

theorem reauthenticate_once_witness:
  "runError (doWithRetry sampleRequest (\<lambda>k. samplePass 1 None (sampleResponse 401 0)) False
               (sampleClient 3, 0, []))
     = Some (EAPI \<lparr>StatusCode = 401, Message = ''unauthorized'', Details = ''{'',
                    RequestID = ''req-1''\<rparr>)
 \<and> runLog (doWithRetry sampleRequest (\<lambda>k. samplePass 1 None (sampleResponse 401 0)) False
               (sampleClient 3, 0, []))
     = [Attempt 0, AllowCall, Send ''tok'', Invalidate,
        Attempt 0, AllowCall, TokenExchange, Send ''tok2'']"
proof -
  let ?env = "\<lambda>k::nat. samplePass 1 None (sampleResponse 401 0)"
  let ?c0 = "sampleClient 3"
  let ?c1 = "(onceClient (doOnce sampleRequest (?env 0) ?c0))
               \<lparr>tokenManager := invalidate (tokenManager (onceClient (doOnce sampleRequest (?env 0) ?c0)))\<rparr>"
  let ?log1 = "passLog [] 0 (onceEvents (doOnce sampleRequest (?env 0) ?c0)) @ [Invalidate]"
  have s0: "onceStatus (doOnce sampleRequest (?env 0) ?c0) = 401"
    by (simp add: doOnce_def onceStatus_def sample_defs)
  have e0: "onceEvents (doOnce sampleRequest (?env 0) ?c0) = [AllowCall, Send ''tok'']"
    by (simp add: doOnce_def onceEvents_def sample_defs)
  have w1: "wrap64 (MaxRetries (retryConfig ?c1) + 1) = 4"
    by (simp add: doOnce_def onceClient_def sample_defs)
  have s1: "onceStatus (doOnce sampleRequest (?env (Suc 0)) ?c1) = 401"
    by (simp add: doOnce_def onceStatus_def onceClient_def sample_defs)
  have e1: "onceEvents (doOnce sampleRequest (?env (Suc 0)) ?c1) = [AllowCall, TokenExchange, Send ''tok2'']"
    by (simp add: doOnce_def onceEvents_def onceClient_def sample_defs)
  have r1: "onceError (doOnce sampleRequest (?env (Suc 0)) ?c1)
     = Some (EAPI \<lparr>StatusCode = 401, Message = ''unauthorized'', Details = ''{'',
                    RequestID = ''req-1''\<rparr>)"
    by (simp add: doOnce_def onceError_def onceClient_def sample_defs)
  have h: "(0::int) < 4 \<and> ((0::int) < 0 \<longrightarrow> sleepResult (?env 0) = None)
      \<and> onceStatus (doOnce sampleRequest (?env 0) ?c0) = 401"
    using s0 by simp
  have h': "(0::int) < 4 \<and> ((0::int) < 0 \<longrightarrow> sleepResult (?env (Suc 0)) = None)
      \<and> onceStatus (doOnce sampleRequest (?env (Suc 0)) ?c1) = 401"
    using s1 by simp
  from reauthenticate_once [where attempt = 0 and maxAttempts = 4 and env = ?env and k = 0
      and rq = sampleRequest and c = ?c0 and lastErr = None and log = "[]"] h
  have first: "doWithRetry_loop sampleRequest ?env False 4 0 None (?c0, 0, [])
     = doWithRetry sampleRequest ?env True (?c1, Suc 0, ?log1)"
    by blast
  from reauthenticate_once [where attempt = 0 and maxAttempts = 4 and env = ?env and k = "Suc 0"
      and rq = sampleRequest and c = ?c1 and lastErr = None and log = ?log1] h'
  have second: "doWithRetry_loop sampleRequest ?env True 4 0 None (?c1, Suc 0, ?log1)
     = ((onceError (doOnce sampleRequest (?env (Suc 0)) ?c1), None),
        onceClient (doOnce sampleRequest (?env (Suc 0)) ?c1), Suc (Suc 0),
        passLog ?log1 0 (onceEvents (doOnce sampleRequest (?env (Suc 0)) ?c1)))"
    by blast
  have w0: "wrap64 (MaxRetries (retryConfig ?c0) + 1) = 4"
    by (simp add: sample_defs)
  have "doWithRetry sampleRequest ?env False (?c0, 0, [])
     = ((onceError (doOnce sampleRequest (?env (Suc 0)) ?c1), None),
        onceClient (doOnce sampleRequest (?env (Suc 0)) ?c1), Suc (Suc 0),
        passLog ?log1 0 (onceEvents (doOnce sampleRequest (?env (Suc 0)) ?c1)))"
    unfolding doWithRetry_def [of _ _ False] fst_conv w0 first
    unfolding doWithRetry_def [of _ _ True] fst_conv w1 second ..
  then show ?thesis
    unfolding r1 e1 e0 by (simp add: runError_def runLog_def passLog_def)
qed


text \<open>
  Where the body is not empty, the parse failure is terminal.  A pass that gets as far as
  a response with a 2xx status and a body that is read, is not empty and does not
  deserialize into the result: the call returns the parse error at once, after this one
  attempt, whatever the attempt index, the number of attempts allowed, and whether it is
  the first call or the one after a 401.
\<close>

lemma parse_failure_terminal:
  assumes "attempt < maxAttempts"
    and "0 < attempt \<longrightarrow> sleepResult (env k) = None"
    and "Allow (allowNow (env k)) (rateLimiter c) = (None, r')"
    and "getToken (tokenEnv (env k)) (tokenManager c) = (Inr token, tm', tevs)"
    and "reqHasBody rq \<longrightarrow> marshalBody (env k) = None"
    and "newRequest (env k) = None"
    and "doResult (env k) = Inr resp"
    and "200 \<le> respStatusCode resp" and "respStatusCode resp < 300"
    and "respReadAll resp = Inr body"
    and "reqHasResult rq" and "body \<noteq> []"
    and "respResultJSON resp = Inl e"
  shows "doWithRetry_loop rq env f maxAttempts attempt lastErr (c, k, log)
       = ((Some (EWrap ''digikey: failed to parse response'' (ELib e)), None),
          c\<lparr>rateLimiter := r', tokenManager := tm'\<rparr>, Suc k,
          passLog log attempt (AllowCall # tevs @ [Send token]))"
proof -
  have d: "doOnce rq (env k) c
       = ((respStatusCode resp, False,
           Some (EWrap ''digikey: failed to parse response'' (ELib e)), None),
          c\<lparr>rateLimiter := r', tokenManager := tm'\<rparr>, AllowCall # tevs @ [Send token])"
    using assms(8-13)
    by (subst doOnce_read_body [OF assms(3-7) assms(10)]) simp
  show ?thesis
    using assms(1,2,8,9)
    by (subst loop_pass [where env = env and k = k, OF _ _ d]) simp_all
qed

lemma parse_failure_terminal_example:
  "doWithRetry sampleRequest (\<lambda>k. samplePass 1 None (sampleResponse 200 0)) False
     (sampleClient 3, 0, [])
   = ((Some (EWrap ''digikey: failed to parse response'' (ELib syntaxError)), None),
      (sampleClient 3)\<lparr>rateLimiter := (NewRateLimiter 0)\<lparr>minuteCount := 1, dayCount := 1\<rparr>\<rparr>,
      Suc 0, [Attempt 0, AllowCall, Send ''tok''])"
proof -
  let ?env = "\<lambda>k::nat. samplePass 1 None (sampleResponse 200 0)"
  let ?resp = "sampleResponse 200 0"
  have h1: "(0::int) < 4" by simp
  have h2: "(0::int) < 0 \<longrightarrow> sleepResult (?env 0) = None" by simp
  have h3: "Allow (allowNow (?env 0)) (rateLimiter (sampleClient 3))
      = (None, (NewRateLimiter 0)\<lparr>minuteCount := 1, dayCount := 1\<rparr>)"
    by (simp add: sample_defs)
  have h4: "getToken (tokenEnv (?env 0)) (tokenManager (sampleClient 3))
      = (Inr ''tok'', tokenManager (sampleClient 3), [])"
    by (simp add: sample_defs)
  have h5: "reqHasBody sampleRequest \<longrightarrow> marshalBody (?env 0) = None"
    by (simp add: sample_defs)
  have h6: "newRequest (?env 0) = None" by (simp add: sample_defs)
  have h7: "doResult (?env 0) = Inr ?resp" by (simp add: sample_defs)
  have h8: "200 \<le> respStatusCode ?resp" and h9: "respStatusCode ?resp < 300"
    and h10: "respReadAll ?resp = Inr ''{''" and h11: "reqHasResult sampleRequest"
    and h12: "''{'' \<noteq> []" and h13: "respResultJSON ?resp = Inl syntaxError"
    by (simp_all add: sample_defs)
  have w: "wrap64 (MaxRetries (retryConfig (sampleClient 3)) + 1) = 4"
    by (simp add: sample_defs)
  from parse_failure_terminal [where env = ?env and k = 0 and f = False and lastErr = None and log = "[]",
      OF h1 h2 h3 h4 h5 h6 h7 h8 h9 h10 h11 h12 h13]
  show ?thesis
    unfolding doWithRetry_def fst_conv w
    by (simp add: passLog_def sampleClient_def)
qed

lemma Allow_limits:
  "Allow now r = (e, r') \<Longrightarrow> minuteLimit r' = minuteLimit r \<and> dayLimit r' = dayLimit r"
  by (auto simp: Allow_def Let_def split: if_splits)

lemma seconds_in_range:
  "- 9223372036 \<le> n \<Longrightarrow> n \<le> 9223372036 \<Longrightarrow> seconds n = n * Second"
  by (simp add: seconds_def wrap64_def Second_def)

lemma Allow_after_update:
  assumes "0 < n" and "n \<le> 9223372036" and "t \<le> now + n * Second"
  shows "\<exists>r2. Allow t (UpdateFromResponse now n r)
           = (Some \<lparr>Limit = minuteLimit r, Remaining = 0, ResetAt = now + n * Second,
                    Type = ''minute''\<rparr>, r2)"
  using assms by (simp add: UpdateFromResponse_def Allow_def Let_def seconds_in_range)

text \<open>
  C10.  After a 429 with a positive \<^verbatim>\<open>Retry-After\<close> value \<open>n\<close> and a backoff shorter than
  \<open>n\<close> seconds, the next attempt is to fail at \<^verbatim>\<open>Allow\<close>.  At \<open>n = 9223372037\<close> the code
  does not: the first attempt gets the 429 at instant 1, the second begins at instant 2,
  its \<^verbatim>\<open>Allow\<close> finds the minute reset time wrapped into the past, resets the window and
  succeeds, and the request is sent.
\<close>

theorem retry_after_gate_overflow:
  "onceStatus (doOnce sampleRequest (samplePass 1 None (sampleResponse 429 9223372037)) (sampleClient 3))
     = 429
 \<and> runError (doWithRetry sampleRequest
       (\<lambda>k. if k = 0 then samplePass 1 None (sampleResponse 429 9223372037)
             else samplePass 2 None (sampleResponse 200 0)) False (sampleClient 3, 0, []))
     = Some (EWrap ''digikey: failed to parse response'' (ELib syntaxError))
 \<and> runLog (doWithRetry sampleRequest
       (\<lambda>k. if k = 0 then samplePass 1 None (sampleResponse 429 9223372037)
             else samplePass 2 None (sampleResponse 200 0)) False (sampleClient 3, 0, []))
     = [Attempt 0, AllowCall, Send ''tok'', Sleep 0, Attempt 1, AllowCall, Send ''tok'']"
proof -
  let ?env = "\<lambda>k::nat. if k = 0 then samplePass 1 None (sampleResponse 429 9223372037)
             else samplePass 2 None (sampleResponse 200 0)"
  let ?r1 = "\<lparr>minuteCount = 120, minuteResetTime = - 9223372036709551615, dayCount = 1,
              dayResetTime = 24 * Hour, minuteLimit = 120, dayLimit = 1000\<rparr>"
  let ?c1 = "(sampleClient 3)\<lparr>rateLimiter := ?r1\<rparr>"
  let ?r2 = "\<lparr>minuteCount = 1, minuteResetTime = 2 + Minute, dayCount = 2,
              dayResetTime = 24 * Hour, minuteLimit = 120, dayLimit = 1000\<rparr>"
  let ?c2 = "(sampleClient 3)\<lparr>rateLimiter := ?r2\<rparr>"
  let ?e1 = "EAPI \<lparr>StatusCode = 429, Message = ''status'', Details = ''{'', RequestID = ''req-1''\<rparr>"
  have d1: "doOnce sampleRequest (?env 0) (sampleClient 3)
      = ((429, True, Some ?e1, None), ?c1, [AllowCall, Send ''tok''])"
    by (simp add: doOnce_def sample_defs)
  have d2: "doOnce sampleRequest (?env (Suc 0)) ?c1
      = ((200, False, Some (EWrap ''digikey: failed to parse response'' (ELib syntaxError)), None),
         ?c2, [AllowCall, Send ''tok''])"
    by (simp add: doOnce_def sample_defs)
  have w: "wrap64 (MaxRetries (retryConfig (sampleClient 3)) + 1) = 4"
    by (simp add: sample_defs)
  have p1: "doWithRetry_loop sampleRequest ?env False 4 0 None (sampleClient 3, 0, [])
     = doWithRetry_loop sampleRequest ?env False 4 (0 + 1) (Some ?e1)
         (?c1, Suc 0, passLog [] 0 [AllowCall, Send ''tok''])"
    by (subst loop_pass [where env = ?env and k = 0, OF _ _ d1]) simp_all
  have p2: "doWithRetry_loop sampleRequest ?env False 4 (0 + 1) (Some ?e1)
         (?c1, Suc 0, passLog [] 0 [AllowCall, Send ''tok''])
     = ((Some (EWrap ''digikey: failed to parse response'' (ELib syntaxError)), None), ?c2,
        Suc (Suc 0), passLog (passLog [] 0 [AllowCall, Send ''tok'']) (0 + 1) [AllowCall, Send ''tok''])"
    by (subst loop_pass [where env = ?env and k = "Suc 0", OF _ _ d2]) (simp_all add: sample_defs)
  have s: "onceStatus (doOnce sampleRequest (samplePass 1 None (sampleResponse 429 9223372037))
             (sampleClient 3)) = 429"
    using d1 by (simp add: onceStatus_def)
  show ?thesis
    unfolding doWithRetry_def fst_conv w p1 p2 s
    by (simp add: runError_def runLog_def passLog_def)
qed

text \<open>
  Where the product does not wrap, the gate closes as intended.  A pass that gets a 429
  response with \<^verbatim>\<open>Retry-After\<close> value \<open>n\<close>, \<open>0 < n \<le> 9223372036\<close>, is marked retryable.
  When another attempt is left, the backoff sleep returns no error, and the next
  \<^verbatim>\<open>Allow\<close> reads the clock no later than \<open>n\<close> seconds after \<^verbatim>\<open>UpdateFromResponse\<close> did,
  that \<^verbatim>\<open>Allow\<close> fails: the call returns a \<^verbatim>\<open>RateLimitError\<close> of type \<open>minute\<close> after
  these two attempts, with no request sent in the second and no further attempt.
\<close>

lemma retry_after_gate_in_range:
  assumes "attempt + 1 < maxAttempts"
    and "0 < attempt \<longrightarrow> sleepResult (env k) = None"
    and "Allow (allowNow (env k)) (rateLimiter c) = (None, r')"
    and "getToken (tokenEnv (env k)) (tokenManager c) = (Inr token, tm', tevs)"
    and "reqHasBody rq \<longrightarrow> marshalBody (env k) = None"
    and "newRequest (env k) = None"
    and "doResult (env k) = Inr resp"
    and "respStatusCode resp = 429"
    and "respReadAll resp = Inr body"
    and "0 < respRetryAfter resp" and "respRetryAfter resp \<le> 9223372036"
    and "sleepResult (env (Suc k)) = None"
    and "allowNow (env (Suc k)) \<le> updateNow (env k) + respRetryAfter resp * Second"
  shows "onceStatus (doOnce rq (env k) c) = 429 \<and> onceRetry (doOnce rq (env k) c)
       \<and> (\<exists>c''. doWithRetry_loop rq env f maxAttempts attempt lastErr (c, k, log)
             = ((Some (ERateLimit \<lparr>Limit = minuteLimit (rateLimiter c), Remaining = 0,
                    ResetAt = updateNow (env k) + respRetryAfter resp * Second,
                    Type = ''minute''\<rparr>), None),
                c'', Suc (Suc k),
                passLog (passLog log attempt (AllowCall # tevs @ [Send token])) (attempt + 1)
                  [AllowCall]))"
proof -
  let ?n = "respRetryAfter resp"
  let ?c1 = "c\<lparr>rateLimiter := UpdateFromResponse (updateNow (env k)) ?n r', tokenManager := tm'\<rparr>"
  let ?log1 = "passLog log attempt (AllowCall # tevs @ [Send token])"
  let ?e = "\<lparr>Limit = minuteLimit r', Remaining = 0,
             ResetAt = updateNow (env k) + ?n * Second, Type = ''minute''\<rparr>"
  have d1: "doOnce rq (env k) c
       = ((429, True, Some (handleErrorResponse resp body), None), ?c1, AllowCall # tevs @ [Send token])"
    using assms(8) by (subst doOnce_read_body [OF assms(3-7) assms(9)]) simp
  have step1: "doWithRetry_loop rq env f maxAttempts attempt lastErr (c, k, log)
       = doWithRetry_loop rq env f maxAttempts (attempt + 1) (Some (handleErrorResponse resp body))
           (?c1, Suc k, ?log1)"
    using assms(1,2) by (subst loop_pass [where env = env and k = k, OF _ _ d1]) simp_all
  from Allow_after_update [OF assms(10,11,13), of r'] obtain r2 where
    a2: "Allow (allowNow (env (Suc k))) (UpdateFromResponse (updateNow (env k)) ?n r') = (Some ?e, r2)"
    by blast
  have d2: "doOnce rq (env (Suc k)) ?c1
       = ((0, False, Some (ERateLimit ?e), None), ?c1\<lparr>rateLimiter := r2\<rparr>, [AllowCall])"
    using a2 by (simp add: doOnce_def)
  have step2: "doWithRetry_loop rq env f maxAttempts (attempt + 1) (Some (handleErrorResponse resp body))
           (?c1, Suc k, ?log1)
       = ((Some (ERateLimit ?e), None), ?c1\<lparr>rateLimiter := r2\<rparr>, Suc (Suc k),
          passLog ?log1 (attempt + 1) [AllowCall])"
    using assms(1,12)
    by (subst loop_pass [where env = env and k = "Suc k", OF _ _ d2]) simp_all
  have lim: "minuteLimit r' = minuteLimit (rateLimiter c)"
    using Allow_limits [OF assms(3)] by simp
  show ?thesis
    unfolding step1 step2 d1 using lim
    by (simp add: onceStatus_def onceRetry_def)
qed

lemma retry_after_gate_in_range_example:
  "runError (doWithRetry sampleRequest
       (\<lambda>k. if k = 0 then samplePass 1 None (sampleResponse 429 60)
             else samplePass 2 None (sampleResponse 200 0)) False (sampleClient 3, 0, []))
     = Some (ERateLimit \<lparr>Limit = 120, Remaining = 0, ResetAt = 60000000001, Type = ''minute''\<rparr>)
 \<and> runLog (doWithRetry sampleRequest
       (\<lambda>k. if k = 0 then samplePass 1 None (sampleResponse 429 60)
             else samplePass 2 None (sampleResponse 200 0)) False (sampleClient 3, 0, []))
     = [Attempt 0, AllowCall, Send ''tok'', Sleep 0, Attempt 1, AllowCall]"
proof -
  let ?env = "\<lambda>k::nat. if k = 0 then samplePass 1 None (sampleResponse 429 60)
             else samplePass 2 None (sampleResponse 200 0)"
  let ?resp = "sampleResponse 429 60"
  have h1: "(0::int) + 1 < 4" by simp
  have h2: "(0::int) < 0 \<longrightarrow> sleepResult (?env 0) = None" by simp
  have h3: "Allow (allowNow (?env 0)) (rateLimiter (sampleClient 3))
      = (None, (NewRateLimiter 0)\<lparr>minuteCount := 1, dayCount := 1\<rparr>)"
    by (simp add: sample_defs)
  have h4: "getToken (tokenEnv (?env 0)) (tokenManager (sampleClient 3))
      = (Inr ''tok'', tokenManager (sampleClient 3), [])"
    by (simp add: sample_defs)
  have h5: "reqHasBody sampleRequest \<longrightarrow> marshalBody (?env 0) = None"
    by (simp add: sample_defs)
  have h6: "newRequest (?env 0) = None" by (simp add: sample_defs)
  have h7: "doResult (?env 0) = Inr ?resp" by (simp add: sample_defs)
  have h8: "respStatusCode ?resp = 429" and h9: "respReadAll ?resp = Inr ''{''"
    and h10: "0 < respRetryAfter ?resp" and h11: "respRetryAfter ?resp \<le> 9223372036"
    by (simp_all add: sample_defs)
  have h12: "sleepResult (?env (Suc 0)) = None" by (simp add: sample_defs)
  have h13: "allowNow (?env (Suc 0)) \<le> updateNow (?env 0) + respRetryAfter ?resp * Second"
    by (simp add: sample_defs)
  have w: "wrap64 (MaxRetries (retryConfig (sampleClient 3)) + 1) = 4"
    by (simp add: sample_defs)
  from retry_after_gate_in_range [where env = ?env and k = 0 and f = False and lastErr = None and log = "[]",
      OF h1 h2 h3 h4 h5 h6 h7 h8 h9 h10 h11 h12 h13]
  show ?thesis
    unfolding doWithRetry_def fst_conv w
    by (auto simp: runError_def runLog_def passLog_def sample_defs)
qed

section \<open>Properties of the token manager\<close>

text \<open>
  C5, as stated, fails where it says that the otherwise-branch stores an expiry.  A token
  endpoint that cannot be reached, at instant 10: \<^verbatim>\<open>getToken\<close> on a manager with no token
  makes the exchange, returns its error and leaves the manager as it was; so does
  \<^verbatim>\<open>getToken\<close> on a manager whose token has expired, which keeps the old token and the
  old expiry.
\<close>

theorem failed_refresh_stores_nothing:
  "getToken (deadTokenEnv 10) newTokenManager
     = (Inl (EWrap ''digikey: token request failed'' (ELib connectionRefused)), newTokenManager,
        [TokenExchange])
 \<and> tokenExpiry (fst (snd (getToken (deadTokenEnv 10) newTokenManager))) = zeroTime
 \<and> getToken (deadTokenEnv 10) \<lparr>accessToken = ''tok'', tokenExpiry = 5\<rparr>
     = (Inl (EWrap ''digikey: token request failed'' (ELib connectionRefused)),
        \<lparr>accessToken = ''tok'', tokenExpiry = 5\<rparr>, [TokenExchange])"
  by (simp add: sample_defs newTokenManager_def deadTokenEnv_def)

text \<open>
  The expiry that a successful exchange stores is \<open>now\<close> plus the \<^verbatim>\<open>int64\<close> product
  \<^verbatim>\<open>time.Duration(ExpiresIn) * time.Second\<close>, the product that \<^verbatim>\<open>UpdateFromResponse\<close> forms
  too.  From \<^verbatim>\<open>expires_in = 9223372037\<close> on it wraps: the expiry stored lies in the past and
  the next \<^verbatim>\<open>getToken\<close> exchanges again.  What is stored is therefore stated below for the
  lifetimes whose nanoseconds fit.
\<close>

lemma refreshToken_expiry_wraps:
  "fst (refreshToken (sampleTokenEnv 10 ''tok2'' 9223372037) newTokenManager) = Inr ''tok2''
 \<and> tokenExpiry (fst (snd (refreshToken (sampleTokenEnv 10 ''tok2'' 9223372037) newTokenManager)))
     = - 9223372036709551606
 \<and> snd (snd (getToken (sampleTokenEnv 11 ''tok3'' 3600)
       (fst (snd (refreshToken (sampleTokenEnv 10 ''tok2'' 9223372037) newTokenManager)))))
     = [TokenExchange]"
  by (simp add: sample_defs newTokenManager_def)

text \<open>
  C5, amended, for a caller that runs alone.  \<^verbatim>\<open>getToken\<close> returns the cached token
  with no exchange when the token is not empty and the clock reads before the expiry
  less 60 seconds, and is \<^verbatim>\<open>refreshToken\<close> otherwise; with a clock that does not run
  backwards, it returns the cached token with no exchange only then.  \<^verbatim>\<open>refreshToken\<close>
  makes the same check on its own clock reading and returns the cached token with no
  exchange when it holds; otherwise, once the request is built, it makes one exchange,
  and when that answers 200 with a body that deserializes, with \<open>expires_in\<close> between
  \<open>-9223372036\<close> and \<open>9223372036\<close>, it stores the token and the expiry \<open>now\<close> plus
  \<open>expires_in\<close> seconds and returns the token.  When the exchange fails (the request is
  not built, the transport or the read fails, the status is not 200, or the body does not
  deserialize), \<^verbatim>\<open>refreshToken\<close> returns an error; and whenever \<^verbatim>\<open>refreshToken\<close> or
  \<^verbatim>\<open>getToken\<close> returns an error, the manager is left as it was, token and expiry.  After
  \<^verbatim>\<open>invalidate\<close>, \<^verbatim>\<open>getToken\<close> is \<^verbatim>\<open>refreshToken\<close>, and makes the exchange once the request
  is built.
\<close>

theorem getToken_cached_or_refresh:
  "(accessToken tm \<noteq> [] \<and> nowCheck E < tokenExpiry tm - tokenExpiryBuffer
      \<longrightarrow> getToken E tm = (Inr (accessToken tm), tm, []))
 \<and> (\<not> (accessToken tm \<noteq> [] \<and> nowCheck E < tokenExpiry tm - tokenExpiryBuffer)
      \<longrightarrow> getToken E tm = refreshToken E tm)
 \<and> (nowCheck E \<le> nowRecheck E \<longrightarrow>
      ((fst (getToken E tm) = Inr (accessToken tm) \<and> snd (snd (getToken E tm)) = [])
        \<longleftrightarrow> (accessToken tm \<noteq> [] \<and> nowCheck E < tokenExpiry tm - tokenExpiryBuffer)))
 \<and> (accessToken tm \<noteq> [] \<and> nowRecheck E < tokenExpiry tm - tokenExpiryBuffer
      \<longrightarrow> refreshToken E tm = (Inr (accessToken tm), tm, []))
 \<and> (\<not> (accessToken tm \<noteq> [] \<and> nowRecheck E < tokenExpiry tm - tokenExpiryBuffer)
      \<and> tokNewRequest E = None
      \<longrightarrow> snd (snd (refreshToken E tm)) = [TokenExchange])
 \<and> (\<not> (accessToken tm \<noteq> [] \<and> nowRecheck E < tokenExpiry tm - tokenExpiryBuffer)
      \<and> tokNewRequest E = None \<and> tokDo E = Inr resp \<and> tokReadAll resp = Inr body
      \<and> tokStatusCode resp = 200 \<and> tokTokenJSON resp = Inr tokenResp
      \<and> - 9223372036 \<le> ExpiresIn tokenResp \<and> ExpiresIn tokenResp \<le> 9223372036
      \<longrightarrow> refreshToken E tm
            = (Inr (AccessToken tokenResp),
               tm\<lparr>accessToken := AccessToken tokenResp,
                  tokenExpiry := nowStore E + ExpiresIn tokenResp * Second\<rparr>,
               [TokenExchange]))
 \<and> (\<not> (accessToken tm \<noteq> [] \<and> nowRecheck E < tokenExpiry tm - tokenExpiryBuffer)
      \<and> (\<forall>granted. \<not> exchangeGrants E granted)
      \<longrightarrow> (\<exists>e. fst (refreshToken E tm) = Inl e))
 \<and> (\<forall>e. fst (refreshToken E tm) = Inl e \<longrightarrow> fst (snd (refreshToken E tm)) = tm)
 \<and> (\<forall>e. fst (getToken E tm) = Inl e \<longrightarrow> fst (snd (getToken E tm)) = tm)
 \<and> getToken E (invalidate tm) = refreshToken E (invalidate tm)
 \<and> (tokNewRequest E = None \<longrightarrow> snd (snd (getToken E (invalidate tm))) = [TokenExchange])"
proof -
  have c1: "accessToken tm \<noteq> [] \<and> nowCheck E < tokenExpiry tm - tokenExpiryBuffer
      \<longrightarrow> getToken E tm = (Inr (accessToken tm), tm, [])"
    by (simp add: getToken_def)
  have c2: "\<not> (accessToken tm \<noteq> [] \<and> nowCheck E < tokenExpiry tm - tokenExpiryBuffer)
      \<longrightarrow> getToken E tm = refreshToken E tm"
    by (simp add: getToken_def)
  have c3: "nowCheck E \<le> nowRecheck E \<longrightarrow>
      ((fst (getToken E tm) = Inr (accessToken tm) \<and> snd (snd (getToken E tm)) = [])
        \<longleftrightarrow> (accessToken tm \<noteq> [] \<and> nowCheck E < tokenExpiry tm - tokenExpiryBuffer))"
    by (auto simp: getToken_def refreshToken_def split: option.splits sum.splits if_splits)
  have c4: "accessToken tm \<noteq> [] \<and> nowRecheck E < tokenExpiry tm - tokenExpiryBuffer
      \<longrightarrow> refreshToken E tm = (Inr (accessToken tm), tm, [])"
    by (simp add: refreshToken_def)
  have ex: "snd (snd (refreshToken E tm)) = [TokenExchange]"
    if "\<not> (accessToken tm \<noteq> [] \<and> nowRecheck E < tokenExpiry tm - tokenExpiryBuffer)"
      "tokNewRequest E = None" for tm
    using that by (auto simp: refreshToken_def split: option.splits sum.splits)
  have c5: "\<not> (accessToken tm \<noteq> [] \<and> nowRecheck E < tokenExpiry tm - tokenExpiryBuffer)
      \<and> tokNewRequest E = None
      \<longrightarrow> snd (snd (refreshToken E tm)) = [TokenExchange]"
    using ex [of tm] by blast
  have c6: "\<not> (accessToken tm \<noteq> [] \<and> nowRecheck E < tokenExpiry tm - tokenExpiryBuffer)
      \<and> tokNewRequest E = None \<and> tokDo E = Inr resp \<and> tokReadAll resp = Inr body
      \<and> tokStatusCode resp = 200 \<and> tokTokenJSON resp = Inr tokenResp
      \<and> - 9223372036 \<le> ExpiresIn tokenResp \<and> ExpiresIn tokenResp \<le> 9223372036
      \<longrightarrow> refreshToken E tm
            = (Inr (AccessToken tokenResp),
               tm\<lparr>accessToken := AccessToken tokenResp,
                  tokenExpiry := nowStore E + ExpiresIn tokenResp * Second\<rparr>,
               [TokenExchange])"
    by (auto simp: refreshToken_def seconds_in_range)
  have f1: "\<not> (accessToken tm \<noteq> [] \<and> nowRecheck E < tokenExpiry tm - tokenExpiryBuffer)
      \<and> (\<forall>granted. \<not> exchangeGrants E granted)
      \<longrightarrow> (\<exists>e. fst (refreshToken E tm) = Inl e)"
    by (auto simp: refreshToken_def exchangeGrants_def split: option.splits sum.splits)
  have f2: "\<forall>e. fst (refreshToken E tm) = Inl e \<longrightarrow> fst (snd (refreshToken E tm)) = tm"
    by (auto simp: refreshToken_def split: option.splits sum.splits if_splits)
  have f3: "\<forall>e. fst (getToken E tm) = Inl e \<longrightarrow> fst (snd (getToken E tm)) = tm"
    using f2 by (simp add: getToken_def)
  have c7: "getToken E (invalidate tm) = refreshToken E (invalidate tm)"
    by (simp add: getToken_def invalidate_def)
  have "\<not> (accessToken (invalidate tm) \<noteq> []
            \<and> nowRecheck E < tokenExpiry (invalidate tm) - tokenExpiryBuffer)"
    by (simp add: invalidate_def)
  from ex [OF this] c7
  have c8: "tokNewRequest E = None \<longrightarrow> snd (snd (getToken E (invalidate tm))) = [TokenExchange]"
    by simp
  from c1 c2 c3 c4 c5 c6 f1 f2 f3 c7 c8 show ?thesis
    by (intro conjI)
qed

theorem getToken_cached_or_refresh_witness:
  "getToken (sampleTokenEnv 10 ''tok2'' 3600) \<lparr>accessToken = ''tok'', tokenExpiry = 3600 * Second\<rparr>
     = (Inr ''tok'', \<lparr>accessToken = ''tok'', tokenExpiry = 3600 * Second\<rparr>, [])
 \<and> getToken (sampleTokenEnv (3540 * Second) ''tok2'' 3600)
       \<lparr>accessToken = ''tok'', tokenExpiry = 3600 * Second\<rparr>
     = (Inr ''tok2'', \<lparr>accessToken = ''tok2'', tokenExpiry = 7140 * Second\<rparr>, [TokenExchange])
 \<and> snd (snd (getToken (sampleTokenEnv 10 ''tok2'' 3600)
       (invalidate \<lparr>accessToken = ''tok'', tokenExpiry = 3600 * Second\<rparr>))) = [TokenExchange]
 \<and> (\<exists>e. fst (getToken (deadTokenEnv (3540 * Second))
                \<lparr>accessToken = ''tok'', tokenExpiry = 3600 * Second\<rparr>) = Inl e)
 \<and> fst (snd (getToken (deadTokenEnv (3540 * Second))
                \<lparr>accessToken = ''tok'', tokenExpiry = 3600 * Second\<rparr>))
     = \<lparr>accessToken = ''tok'', tokenExpiry = 3600 * Second\<rparr>"
proof -
  let ?tm = "\<lparr>accessToken = ''tok'', tokenExpiry = 3600 * Second\<rparr>"
  let ?E = "sampleTokenEnv 10 ''tok2'' 3600"
  let ?L = "sampleTokenEnv (3540 * Second) ''tok2'' 3600"
  let ?resp = "\<lparr>tokStatusCode = 200, tokReadAll = Inr ''{}'', tokAuthJSON = None,
               tokTokenJSON = Inr \<lparr>AccessToken = ''tok2'', TokenType = ''Bearer'',
                                    ExpiresIn = 3600\<rparr>\<rparr>"
  let ?tr = "\<lparr>AccessToken = ''tok2'', TokenType = ''Bearer'', ExpiresIn = 3600\<rparr>"
  have v: "accessToken ?tm \<noteq> [] \<and> nowCheck ?E < tokenExpiry ?tm - tokenExpiryBuffer"
    by (simp add: sample_defs)
  have nv: "\<not> (accessToken ?tm \<noteq> [] \<and> nowCheck ?L < tokenExpiry ?tm - tokenExpiryBuffer)"
    by (simp add: sample_defs)
  have st: "\<not> (accessToken ?tm \<noteq> [] \<and> nowRecheck ?L < tokenExpiry ?tm - tokenExpiryBuffer)
      \<and> tokNewRequest ?L = None \<and> tokDo ?L = Inr ?resp \<and> tokReadAll ?resp = Inr ''{}''
      \<and> tokStatusCode ?resp = 200 \<and> tokTokenJSON ?resp = Inr ?tr
      \<and> - 9223372036 \<le> ExpiresIn ?tr \<and> ExpiresIn ?tr \<le> 9223372036"
    by (simp add: sample_defs)
  have nr: "tokNewRequest ?E = None"
    by (simp add: sample_defs)
  from getToken_cached_or_refresh [of ?tm ?E] v
  have a: "getToken ?E ?tm = (Inr (accessToken ?tm), ?tm, [])"
    by blast
  from getToken_cached_or_refresh [of ?tm ?L ?resp "''{}''" ?tr] nv st
  have b: "getToken ?L ?tm = (Inr (AccessToken ?tr),
               ?tm\<lparr>accessToken := AccessToken ?tr,
                  tokenExpiry := nowStore ?L + ExpiresIn ?tr * Second\<rparr>, [TokenExchange])"
    by metis
  from getToken_cached_or_refresh [of ?tm ?E] nr
  have c: "snd (snd (getToken ?E (invalidate ?tm))) = [TokenExchange]"
    by blast
  let ?D = "deadTokenEnv (3540 * Second)"
  have nvD: "\<not> (accessToken ?tm \<noteq> [] \<and> nowCheck ?D < tokenExpiry ?tm - tokenExpiryBuffer)"
    and nrD: "\<not> (accessToken ?tm \<noteq> [] \<and> nowRecheck ?D < tokenExpiry ?tm - tokenExpiryBuffer)"
    and ng: "\<forall>granted. \<not> exchangeGrants ?D granted"
    by (simp_all add: deadTokenEnv_def exchangeGrants_def tokenExpiryBuffer_def Second_def)
  from getToken_cached_or_refresh [of ?tm ?D] nvD nrD ng
  have d: "\<exists>e. fst (getToken ?D ?tm) = Inl e"
    by metis
  with getToken_cached_or_refresh [of ?tm ?D]
  have e: "fst (snd (getToken ?D ?tm)) = ?tm"
    by blast
  from a b c d e show ?thesis
    by (simp add: sample_defs)
qed

section \<open>Properties of the product operations\<close>

lemma checkCache_hit:
  assumes "Enabled (cacheConfig c)" and "cache c = Some m"
    and "m key = Some (cached, expiresAt)" and "cacheGetNow P < expiresAt"
    and "unmarshalResp P cached = Inr resp"
  shows "checkCache P key c = (Some resp, c)"
proof -
  have "c\<lparr>cache := Some m\<rparr> = c"
    using assms(2) by (cases c) simp
  with assms show ?thesis
    by (simp add: checkCache_def cacheGet_def)
qed

text \<open>
  C6.  With caching enabled and a cache that holds, under the request's key, an entry
  that has not expired and deserializes: \<^verbatim>\<open>KeywordSearch\<close> (whose key is that of the
  request with its limit brought into 1..50) and \<^verbatim>\<open>ProductDetails\<close> return the cached
  response and leave the client, rate limiter and token manager included, as it was;
  no pass of the request loop begins and no call is made: no \<^verbatim>\<open>Allow\<close>, no token
  exchange, no request sent.
\<close>

theorem cache_hit_frame:
  assumes "Enabled (cacheConfig c)" and "cache c = Some m"
    and "m key = Some (cached, expiresAt)" and "cacheGetNow P < expiresAt"
    and "unmarshalResp P cached = Inr resp"
  shows "(Keywords r \<noteq> []
          \<and> key = cacheKeyForSearch P (locale c)
                    (r\<lparr>Limit' := (if Limit' r \<le> 0 then 10
                                   else if 50 < Limit' r then 50 else Limit' r)\<rparr>)
          \<longrightarrow> KeywordSearch P env (Some r) (c, k, log) = (Inr resp, c, k, log))
       \<and> (productNumber \<noteq> [] \<and> key = cacheKeyForDetails P (locale c) productNumber
          \<longrightarrow> ProductDetails P env productNumber (c, k, log) = (Inr resp, c, k, log))"
  using checkCache_hit [OF assms]
  by (auto simp: KeywordSearch_def ProductDetails_def Let_def)

theorem cache_hit_frame_witness:
  "KeywordSearch sampleProducts (\<lambda>k. samplePass 30 None (sampleResponse 503 0))
     (Some \<lparr>Keywords = ''stm32'', Limit' = 0, Offset = 0\<rparr>) (cachingClient, 0, [])
     = (Inr (), cachingClient, 0, [])
 \<and> ProductDetails sampleProducts (\<lambda>k. samplePass 30 None (sampleResponse 503 0))
     ''497-15360-ND'' (cachingClient, 0, [])
     = (Inr (), cachingClient, 0, [])"
proof -
  let ?m = "[''search:US|stm32'' \<mapsto> (''{}'', 5 * Minute),
             ''details:US|497-15360-ND'' \<mapsto> (''{}'', 5 * Minute)]"
  let ?r = "\<lparr>Keywords = ''stm32'', Limit' = 0, Offset = 0\<rparr>"
  have h1: "Enabled (cacheConfig cachingClient)" and h2: "cache cachingClient = Some ?m"
    by (simp_all add: cachingClient_def)
  have h3: "?m ''search:US|stm32'' = Some (''{}'', 5 * Minute)"
    and h3': "?m ''details:US|497-15360-ND'' = Some (''{}'', 5 * Minute)"
    by simp_all
  have h4: "cacheGetNow sampleProducts < 5 * Minute"
    by (simp add: sampleProducts_def Minute_def Second_def)
  have h5: "unmarshalResp sampleProducts ''{}'' = Inr ()"
    by (simp add: sampleProducts_def)
  have k1: "Keywords ?r \<noteq> []
          \<and> ''search:US|stm32'' = cacheKeyForSearch sampleProducts (locale cachingClient)
                    (?r\<lparr>Limit' := (if Limit' ?r \<le> 0 then 10
                                   else if 50 < Limit' ?r then 50 else Limit' ?r)\<rparr>)"
    by (simp add: sampleProducts_def cachingClient_def sampleClient_def)
  have k2: "''497-15360-ND'' \<noteq> []
          \<and> ''details:US|497-15360-ND''
              = cacheKeyForDetails sampleProducts (locale cachingClient) ''497-15360-ND''"
    by (simp add: sampleProducts_def cachingClient_def sampleClient_def)
  from cache_hit_frame [OF h1 h2 h3 h4 h5, of ?r] k1
  have a: "KeywordSearch sampleProducts (\<lambda>k. samplePass 30 None (sampleResponse 503 0))
     (Some ?r) (cachingClient, 0, []) = (Inr (), cachingClient, 0, [])"
    by blast
  from cache_hit_frame [OF h1 h2 h3' h4 h5, where productNumber = "''497-15360-ND''"] k2
  have b: "ProductDetails sampleProducts (\<lambda>k. samplePass 30 None (sampleResponse 503 0))
     ''497-15360-ND'' (cachingClient, 0, []) = (Inr (), cachingClient, 0, [])"
    by blast
  from a b show ?thesis ..
qed

section \<open>Properties of concurrent callers\<close>

lemma exchanges_append: "exchanges (xs @ ys) = exchanges xs + exchanges ys"
  by (induction xs rule: exchanges.induct) simp_all

lemma refreshToken_grants:
  assumes "\<not> (accessToken tm \<noteq> [] \<and> nowRecheck E < tokenExpiry tm - tokenExpiryBuffer)"
    and "exchangeGrants E tokenResp"
  shows "refreshToken E tm
       = (Inr (AccessToken tokenResp),
          tm\<lparr>accessToken := AccessToken tokenResp,
             tokenExpiry := nowStore E + seconds (ExpiresIn tokenResp)\<rparr>,
          [TokenExchange])"
  using assms
  by (auto simp: refreshToken_def exchangeGrants_def split: sum.splits)

lemma callerStep_oneExchange:
  assumes none: "\<forall>i<N. \<not> (accessToken tm0 \<noteq> [] \<and> nowCheck (env i) < tokenExpiry tm0 - tokenExpiryBuffer)
                     \<and> \<not> (accessToken tm0 \<noteq> [] \<and> nowRecheck (env i) < tokenExpiry tm0 - tokenExpiryBuffer)"
    and grant: "\<forall>i<N. \<exists>tokenResp. exchangeGrants (env i) tokenResp \<and> AccessToken tokenResp \<noteq> []
                  \<and> (\<forall>j<N. nowRecheck (env j)
                         < nowStore (env i) + seconds (ExpiresIn tokenResp) - tokenExpiryBuffer)"
    and inv: "oneExchange env N tm0 s"
  shows "oneExchange env N tm0 (callerStep env i s)"
proof -
  obtain tm cs log where s: "s = (tm, cs, log)" by (cases s) auto
  from inv s have len: "length cs = N" by (simp add: oneExchange_def)
  show ?thesis
  proof (cases "i < N")
    case False
    with inv s len show ?thesis by (simp add: callerStep_def)
  next
    case iN: True
    from inv s consider
      (A) "tm = tm0" "exchanges log = 0" "\<forall>c\<in>set cs. \<not> isReturned c"
      | (B) "accessToken tm \<noteq> []"
          "\<forall>j<N. nowRecheck (env j) < tokenExpiry tm - tokenExpiryBuffer"
          "exchanges log = 1"
          "\<forall>c\<in>set cs. isReturned c \<longrightarrow> c = Returned (Inr (accessToken tm))"
      by (auto simp: oneExchange_def)
    then show ?thesis
    proof cases
      case A
      have nv1: "\<not> (accessToken tm \<noteq> [] \<and> nowCheck (env i) < tokenExpiry tm - tokenExpiryBuffer)"
        and nv2: "\<not> (accessToken tm \<noteq> [] \<and> nowRecheck (env i) < tokenExpiry tm - tokenExpiryBuffer)"
        using none iN A(1) by auto
      show ?thesis
      proof (cases "cs ! i")
        case Start
        have "\<forall>c\<in>set (cs[i := Waiting]). \<not> isReturned c"
          using A(3) set_update_subset_insert [of cs i Waiting] by auto
        moreover have "callerStep env i s = (tm, cs[i := Waiting], log)"
          using Start nv1 s len iN by (auto simp: callerStep_def)
        ultimately show ?thesis
          using A len by (simp add: oneExchange_def)
      next
        case Waiting
        from grant iN obtain tr where tr: "exchangeGrants (env i) tr" "AccessToken tr \<noteq> []"
          "\<forall>j<N. nowRecheck (env j) < nowStore (env i) + seconds (ExpiresIn tr) - tokenExpiryBuffer"
          by blast
        let ?tm' = "tm\<lparr>accessToken := AccessToken tr,
                       tokenExpiry := nowStore (env i) + seconds (ExpiresIn tr)\<rparr>"
        have r: "refreshToken (env i) tm = (Inr (AccessToken tr), ?tm', [TokenExchange])"
          using nv2 tr(1) by (rule refreshToken_grants)
        have ret: "\<forall>c\<in>set (cs[i := Returned (Inr (AccessToken tr))]).
                 isReturned c \<longrightarrow> c = Returned (Inr (accessToken ?tm'))"
          using A(3) set_update_subset_insert [of cs i "Returned (Inr (AccessToken tr))"] by auto
        have "callerStep env i s
            = (?tm', cs[i := Returned (Inr (AccessToken tr))], log @ [TokenExchange])"
          using Waiting r s len iN by (simp add: callerStep_def)
        with ret tr A(2) len show ?thesis
          by (simp add: oneExchange_def exchanges_append)
      next
        case (Returned res)
        with inv s len iN show ?thesis by (simp add: callerStep_def)
      qed
    next
      case B
      show ?thesis
      proof (cases "cs ! i")
        case Start
        have w: "\<forall>c\<in>set (cs[i := Waiting]). isReturned c \<longrightarrow> c = Returned (Inr (accessToken tm))"
          using B(4) set_update_subset_insert [of cs i Waiting] by auto
        have d: "\<forall>c\<in>set (cs[i := Returned (Inr (accessToken tm))]).
                 isReturned c \<longrightarrow> c = Returned (Inr (accessToken tm))"
          using B(4) set_update_subset_insert [of cs i "Returned (Inr (accessToken tm))"] by auto
        from Start w d B s len iN show ?thesis
          by (simp add: callerStep_def oneExchange_def)
      next
        case Waiting
        have r: "refreshToken (env i) tm = (Inr (accessToken tm), tm, [])"
          using B(1,2) iN by (simp add: refreshToken_def)
        have d: "\<forall>c\<in>set (cs[i := Returned (Inr (accessToken tm))]).
                 isReturned c \<longrightarrow> c = Returned (Inr (accessToken tm))"
          using B(4) set_update_subset_insert [of cs i "Returned (Inr (accessToken tm))"] by auto
        from Waiting r d B s len iN show ?thesis
          by (simp add: callerStep_def oneExchange_def)
      next
        case (Returned res)
        with inv s len iN show ?thesis by (simp add: callerStep_def)
      qed
    qed
  qed
qed

lemma runSchedule_oneExchange:
  assumes none: "\<forall>i<N. \<not> (accessToken tm0 \<noteq> [] \<and> nowCheck (env i) < tokenExpiry tm0 - tokenExpiryBuffer)
                     \<and> \<not> (accessToken tm0 \<noteq> [] \<and> nowRecheck (env i) < tokenExpiry tm0 - tokenExpiryBuffer)"
    and grant: "\<forall>i<N. \<exists>tokenResp. exchangeGrants (env i) tokenResp \<and> AccessToken tokenResp \<noteq> []
                  \<and> (\<forall>j<N. nowRecheck (env j)
                         < nowStore (env i) + seconds (ExpiresIn tokenResp) - tokenExpiryBuffer)"
  shows "oneExchange env N tm0 s \<Longrightarrow> oneExchange env N tm0 (runSchedule env sched s)"
proof (induction sched arbitrary: s)
  case Nil
  then show ?case by simp
next
  case (Cons i sched)
  from callerStep_oneExchange [OF none grant Cons.prems]
  have "oneExchange env N tm0 (callerStep env i s)" .
  then show ?case using Cons.IH by simp
qed

text \<open>
  C4, as stated, fails when the exchange fails.  Two callers, no cached token, a token
  endpoint that cannot be reached: both read, the first refreshes and gets the transport
  error, nothing is stored, and the second, re-validating under the lock, finds no token
  and makes an exchange of its own.
\<close>

theorem failed_exchange_repeats:
  "exchanges (snd (snd (runSchedule (\<lambda>i. deadTokenEnv 10) [0, 1, 0, 1]
                          (newTokenManager, replicate 2 Start, [])))) = 2
 \<and> fst (snd (runSchedule (\<lambda>i. deadTokenEnv 10) [0, 1, 0, 1]
                (newTokenManager, replicate 2 Start, [])))
     = [Returned (Inl (EWrap ''digikey: token request failed'' (ELib connectionRefused))),
        Returned (Inl (EWrap ''digikey: token request failed'' (ELib connectionRefused)))]"
  by (simp add: callerStep_def numeral_2_eq_2 newTokenManager_def deadTokenEnv_def sample_defs)

text \<open>
  C4, amended.  \<open>N\<close> callers, \<open>N > 0\<close>, start with a manager whose token passes neither
  check of any of them.  Whichever caller asks the token endpoint gets 200 with a token
  that is not empty and that passes every caller's re-validation.  Then in every
  schedule that lets all callers return, exactly one exchange is made, and every caller
  returns the token it stored: the others got it from their read or from the
  re-validation under the lock, with no exchange of their own.
\<close>

theorem single_exchange:
  assumes none: "\<forall>i<N. \<not> (accessToken tm0 \<noteq> [] \<and> nowCheck (env i) < tokenExpiry tm0 - tokenExpiryBuffer)
                     \<and> \<not> (accessToken tm0 \<noteq> [] \<and> nowRecheck (env i) < tokenExpiry tm0 - tokenExpiryBuffer)"
    and grant: "\<forall>i<N. \<exists>tokenResp. exchangeGrants (env i) tokenResp \<and> AccessToken tokenResp \<noteq> []
                  \<and> (\<forall>j<N. nowRecheck (env j)
                         < nowStore (env i) + seconds (ExpiresIn tokenResp) - tokenExpiryBuffer)"
    and "0 < N"
    and run: "runSchedule env sched (tm0, replicate N Start, []) = (tm, callers, log)"
    and fin: "\<forall>c\<in>set callers. isReturned c"
  shows "exchanges log = 1 \<and> accessToken tm \<noteq> []
       \<and> (\<forall>c\<in>set callers. c = Returned (Inr (accessToken tm)))"
proof -
  have "oneExchange env N tm0 (tm0, replicate N Start, [])"
    by (simp add: oneExchange_def)
  from runSchedule_oneExchange [OF none grant this, of sched] run
  have inv: "oneExchange env N tm0 (tm, callers, log)" by simp
  then have len: "length callers = N" by (simp add: oneExchange_def)
  with \<open>0 < N\<close> obtain c where "c \<in> set callers" by (cases callers) auto
  with fin have "\<not> (\<forall>c\<in>set callers. \<not> isReturned c)" by auto
  with inv fin show ?thesis
    by (auto simp: oneExchange_def)
qed

theorem single_exchange_witness:
  "exchanges (snd (snd (runSchedule (\<lambda>i. sampleTokenEnv 10 ''tok2'' 3600) [0, 1, 1, 0]
                          (newTokenManager, replicate 2 Start, [])))) = 1
 \<and> fst (snd (runSchedule (\<lambda>i. sampleTokenEnv 10 ''tok2'' 3600) [0, 1, 1, 0]
                (newTokenManager, replicate 2 Start, [])))
     = [Returned (Inr ''tok2''), Returned (Inr ''tok2'')]"
proof -
  let ?env = "\<lambda>i::nat. sampleTokenEnv 10 ''tok2'' 3600"
  let ?tm = "\<lparr>accessToken = ''tok2'', tokenExpiry = 10 + 3600 * Second\<rparr>"
  have run: "runSchedule ?env [0, 1, 1, 0] (newTokenManager, replicate 2 Start, [])
     = (?tm, [Returned (Inr ''tok2''), Returned (Inr ''tok2'')], [TokenExchange])"
    by (simp add: callerStep_def numeral_2_eq_2 newTokenManager_def sample_defs)
  have none: "\<forall>i<2. \<not> (accessToken newTokenManager \<noteq> []
                        \<and> nowCheck (?env i) < tokenExpiry newTokenManager - tokenExpiryBuffer)
                  \<and> \<not> (accessToken newTokenManager \<noteq> []
                        \<and> nowRecheck (?env i) < tokenExpiry newTokenManager - tokenExpiryBuffer)"
    by (simp add: newTokenManager_def)
  have g: "exchangeGrants (?env i) \<lparr>AccessToken = ''tok2'', TokenType = ''Bearer'', ExpiresIn = 3600\<rparr>
          \<and> AccessToken \<lparr>AccessToken = ''tok2'', TokenType = ''Bearer'', ExpiresIn = 3600\<rparr> \<noteq> []
          \<and> (\<forall>j<2. nowRecheck (?env j)
                 < nowStore (?env i)
                   + seconds (ExpiresIn \<lparr>AccessToken = ''tok2'', TokenType = ''Bearer'', ExpiresIn = 3600\<rparr>)
                   - tokenExpiryBuffer)" for i :: nat
    by (simp add: exchangeGrants_def sample_defs)
  have grant: "\<forall>i<2. \<exists>tokenResp. exchangeGrants (?env i) tokenResp \<and> AccessToken tokenResp \<noteq> []
                  \<and> (\<forall>j<2. nowRecheck (?env j)
                         < nowStore (?env i) + seconds (ExpiresIn tokenResp) - tokenExpiryBuffer)"
    using g by blast
  have pos: "(0::nat) < 2" by simp
  have fin: "\<forall>c\<in>set [Returned (Inr ''tok2''), Returned (Inr ''tok2'')]. isReturned c"
    by simp
  from single_exchange [OF none grant pos run fin] show ?thesis
    unfolding run by simp
qed

end
